theory Spec2Isabelle
  imports Complex_Main
begin

section \<open>Data model\<close>

text \<open>
  Timestamps are the C++ \<open>double\<close> values of \<open>Utility::GetTime()\<close> and of the
  \<open>begin\<close>/\<open>end\<close> entries of a segment. Only their order and the test against zero
  are used by the code, so they are modelled as \<^typ>\<open>real\<close> (no NaN). A \<open>time_t\<close> is an
  \<^typ>\<open>int\<close>; the conversion \<open>time_t refts = Utility::GetTime()\<close> truncates towards zero.
\<close>

definition to_time_t :: "real \<Rightarrow> int" where
  "to_time_t t = (if t < 0 then \<lceil>t\<rceil> else \<lfloor>t\<rfloor>)"

text \<open>The C \<open>struct tm\<close>, as filled by \<open>Utility::LocalTime\<close>.\<close>

record tm =
  tm_sec :: int
  tm_min :: int
  tm_hour :: int
  tm_mday :: int
  tm_mon :: int
  tm_year :: int
  tm_wday :: int
  tm_yday :: int
  tm_isdst :: int

text \<open>
  A segment is the dictionary returned by \<open>LegacyTimePeriod::FindNextSegment\<close>, read
  through \<open>segment->Get("begin")\<close> and \<open>segment->Get("end")\<close>.
\<close>

record Segment =
  seg_begin :: real
  seg_end :: real

text \<open>
  A \<open>Downtime\<close> object. The source reads \<open>GetScheduledBy()\<close> and \<open>GetStartTime()\<close>
  and writes \<open>SetConfigOwner\<close>; the other fields are the arguments of
  \<open>Checkable::AddDowntime\<close>.
\<close>

record Downtime =
  uid :: nat
  author :: string
  comment :: string
  startTime :: real
  endTime :: real
  fixed :: bool
  triggeredBy :: string
  duration :: real
  scheduledBy :: string
  configOwner :: string

text \<open>
  The attributes of a \<open>ScheduledDowntime\<close> object, named after their getters.
  \<open>GetRanges\<close> is a \<open>Dictionary::Ptr\<close>: \<open>None\<close> is the null pointer, and the list
  holds the key/value pairs in the order in which \<open>BOOST_FOREACH\<close> visits them.
\<close>

record ScheduledDowntime =
  GetName :: string
  GetHostName :: string
  GetServiceName :: string
  GetAuthor :: string
  GetComment :: string
  GetFixed :: bool
  GetDuration :: real
  GetRanges :: "(string \<times> string) list option"

text \<open>
  Everything the source throws or crashes on: a dereferenced null pointer, a
  \<open>std::exception\<close> raised by the time period code (with its \<open>what()\<close> text), and the
  \<open>ValidationError\<close> built by \<open>ValidateRanges\<close> (attribute path and message).
\<close>

datatype error =
    NullPointer
  | StdException string
  | ValidationError "string list" string

text \<open>
  The collaborators that are called but not defined in \<open>scheduleddowntime.cpp\<close>:
  \<open>Utility::LocalTime\<close> and three functions of \<open>LegacyTimePeriod\<close>. They are
  parameters of the model. A left result is the \<open>what()\<close> of a thrown
  \<open>std::exception\<close>; \<open>Inr None\<close> is the null segment. Following the interface of the
  specification they do not change the reference time they are given.
\<close>

record external =
  LocalTime :: "int \<Rightarrow> tm"
  LegacyTimePeriod_FindNextSegment :: "string \<Rightarrow> string \<Rightarrow> tm \<Rightarrow> string + Segment option"
  ParseTimeRange :: "string \<Rightarrow> tm \<Rightarrow> string + unit"
  ProcessTimeRanges :: "string \<Rightarrow> tm \<Rightarrow> string + Segment list"

text \<open>
  The mutable world: the clock, as the sequence of values that successive calls of
  \<open>Utility::GetTime()\<close> return together with the number of calls made so far, and the
  monitored targets with their downtimes. A target is keyed by host name and service
  short name (empty for the host itself); its downtimes are kept in enumeration order.
\<close>

type_synonym checkable = "string \<times> string"

record world =
  clock :: "nat \<Rightarrow> real"
  reads :: nat
  checkables :: "(checkable \<times> Downtime list) list"

definition GetTime :: "world \<Rightarrow> real \<times> world" where
  "GetTime w = (clock w (reads w), w\<lparr>reads := Suc (reads w)\<rparr>)"

section \<open>FindNextSegment\<close>

text \<open>
  The loop of \<open>ScheduledDowntime::FindNextSegment\<close> over the ranges. The accumulator
  is the pair of local variables \<open>bestSegment\<close> and \<open>bestBegin\<close>: \<open>None\<close> while
  \<open>bestSegment\<close> is null (and \<open>bestBegin\<close> is uninitialised). An exception of the
  evaluator is not caught and leaves the loop.
\<close>

fun FindNextSegment_loop ::
  "external \<Rightarrow> tm \<Rightarrow> real \<Rightarrow> (string \<times> string) list \<Rightarrow> (Segment \<times> real) option
     \<Rightarrow> error + (Segment \<times> real) option" where
  "FindNextSegment_loop ext reference now [] best = Inr best"
| "FindNextSegment_loop ext reference now (kv # rest) best =
     (case LegacyTimePeriod_FindNextSegment ext (fst kv) (snd kv) reference of
        Inl what \<Rightarrow> Inl (StdException what)
      | Inr None \<Rightarrow> FindNextSegment_loop ext reference now rest best
      | Inr (Some segment) \<Rightarrow>
          (let segBegin = seg_begin segment in
           if segBegin < now then FindNextSegment_loop ext reference now rest best
           else (case best of
                   None \<Rightarrow> FindNextSegment_loop ext reference now rest (Some (segment, segBegin))
                 | Some (bestSegment, bestBegin) \<Rightarrow>
                     if segBegin < bestBegin
                     then FindNextSegment_loop ext reference now rest (Some (segment, segBegin))
                     else FindNextSegment_loop ext reference now rest best)))"

text \<open>
  \<open>ScheduledDowntime::FindNextSegment\<close>: the clock is read twice, once for the
  reference time (truncated to a \<open>time_t\<close>) and once for \<open>now\<close>. Iterating a null
  ranges dictionary dereferences a null pointer. The result is the pair of the best
  segment, or \<open>(0, 0)\<close> when there is none.
\<close>

definition FindNextSegment ::
  "external \<Rightarrow> ScheduledDowntime \<Rightarrow> world \<Rightarrow> (error + real \<times> real) \<times> world" where
  "FindNextSegment ext sd w =
     (let (t, w1) = GetTime w;
          refts = to_time_t t;
          reference = LocalTime ext refts;
          ranges = GetRanges sd;
          (now, w2) = GetTime w1
      in case ranges of
           None \<Rightarrow> (Inl NullPointer, w2)
         | Some rs \<Rightarrow>
             (case FindNextSegment_loop ext reference now rs None of
                Inl e \<Rightarrow> (Inl e, w2)
              | Inr None \<Rightarrow> (Inr (0, 0), w2)
              | Inr (Some (bestSegment, bestBegin)) \<Rightarrow>
                  (Inr (seg_begin bestSegment, seg_end bestSegment), w2)))"

section \<open>Targets and their downtimes\<close>

text \<open>
  Modelled from the spec: \<open>Host::GetByName\<close> is not part of the source file. The
  registry resolves a key to the target registered under it, or to the null pointer;
  a host is registered under its name with an empty service name.
\<close>

definition Host_GetByName :: "world \<Rightarrow> string \<Rightarrow> checkable option" where
  "Host_GetByName w name =
     (if (name, []) \<in> set (map fst (checkables w)) then Some (name, []) else None)"

text \<open>
  Modelled from the spec: \<open>Host::GetServiceByShortName\<close> is not part of the source
  file. It resolves the service of the given host with the given short name, or
  yields the null pointer.
\<close>

definition GetServiceByShortName :: "world \<Rightarrow> checkable \<Rightarrow> string \<Rightarrow> checkable option" where
  "GetServiceByShortName w host short =
     (if (fst host, short) \<in> set (map fst (checkables w)) then Some (fst host, short) else None)"

text \<open>
  \<open>ScheduledDowntime::GetCheckable\<close>: the host when the service name is empty,
  otherwise the service looked up through the host pointer, which is dereferenced
  without a null check.
\<close>

definition GetCheckable :: "ScheduledDowntime \<Rightarrow> world \<Rightarrow> error + checkable option" where
  "GetCheckable sd w =
     (let host = Host_GetByName w (GetHostName sd)
      in if GetServiceName sd = [] then Inr host
         else (case host of
                 None \<Rightarrow> Inl NullPointer
               | Some h \<Rightarrow> Inr (GetServiceByShortName w h (GetServiceName sd))))"

text \<open>
  Modelled from the spec: \<open>Checkable::GetDowntimes\<close> is not part of the source
  file. The store of a target is an insertion-ordered collection of downtimes that
  supports enumeration and insertion.
\<close>

definition GetDowntimes :: "checkable \<Rightarrow> world \<Rightarrow> Downtime list" where
  "GetDowntimes c w = (case map_of (checkables w) c of None \<Rightarrow> [] | Some ds \<Rightarrow> ds)"

text \<open>
  Modelled from the spec: the identifier of a downtime is assigned by the store on
  insertion (\<open>Utility::NewUniqueID\<close> is not part of the source file). Identifiers are
  unique: a new one is larger than every identifier in use in any store.
\<close>

definition all_downtimes :: "world \<Rightarrow> Downtime list" where
  "all_downtimes w = concat (map snd (checkables w))"

definition NewUniqueID :: "world \<Rightarrow> nat" where
  "NewUniqueID w = Suc (foldr max (map uid (all_downtimes w)) 0)"

text \<open>
  Modelled from the spec: \<open>Checkable::AddDowntime\<close> is not part of the source file.
  It inserts a downtime with the given fields at the end of the store of the target
  and returns its identifier. The arguments are, in the order of the call in
  \<open>CreateNextDowntime\<close>: author, comment, start time, end time, fixed, triggered-by,
  duration and scheduled-by. A new downtime has no config owner.
\<close>

definition AddDowntime ::
  "checkable \<Rightarrow> string \<Rightarrow> string \<Rightarrow> real \<Rightarrow> real \<Rightarrow> bool \<Rightarrow> string \<Rightarrow> real \<Rightarrow> string
     \<Rightarrow> world \<Rightarrow> nat \<times> world" where
  "AddDowntime c au co st en fi tr du sb w =
     (let i = NewUniqueID w;
          d = \<lparr>uid = i, author = au, comment = co, startTime = st, endTime = en,
               fixed = fi, triggeredBy = tr, duration = du, scheduledBy = sb,
               configOwner = []\<rparr>
      in (i, w\<lparr>checkables :=
                 map (\<lambda>(k, ds). if k = c then (k, ds @ [d]) else (k, ds)) (checkables w)\<rparr>))"

text \<open>
  Modelled from the spec: \<open>Checkable::GetDowntimeByID\<close> is not part of the source
  file. The identifier returned by an insertion fetches the created record; an
  unknown identifier yields the null pointer.
\<close>

definition GetDowntimeByID :: "nat \<Rightarrow> world \<Rightarrow> Downtime option" where
  "GetDowntimeByID i w = find (\<lambda>d. uid d = i) (all_downtimes w)"

text \<open>
  Modelled from the spec: \<open>Downtime::SetConfigOwner\<close> is not part of the source
  file. It is called through the pointer that \<open>GetDowntimeByID\<close> returned, so it
  writes the config owner of the stored downtime with that identifier.
\<close>

definition SetConfigOwner :: "nat \<Rightarrow> string \<Rightarrow> world \<Rightarrow> world" where
  "SetConfigOwner i owner w =
     w\<lparr>checkables :=
         map (\<lambda>(k, ds). (k, map (\<lambda>d. if uid d = i then d\<lparr>configOwner := owner\<rparr> else d) ds))
           (checkables w)\<rparr>"

section \<open>CreateNextDowntime and TimerProc\<close>

text \<open>
  The first loop of \<open>ScheduledDowntime::CreateNextDowntime\<close>: it returns \<open>True\<close> at
  the first downtime that is scheduled by this object and has not started. The
  clock is read only when the first disjunct of the test is false.
\<close>

fun CreateNextDowntime_scan :: "string \<Rightarrow> Downtime list \<Rightarrow> world \<Rightarrow> bool \<times> world" where
  "CreateNextDowntime_scan name [] w = (False, w)"
| "CreateNextDowntime_scan name (downtime # rest) w =
     (if scheduledBy downtime \<noteq> name then CreateNextDowntime_scan name rest w
      else (let (t, w1) = GetTime w
            in if startTime downtime < t then CreateNextDowntime_scan name rest w1
               else (True, w1)))"

text \<open>The local \<open>tm reference\<close> of the branch taken when no segment is found.\<close>

definition next_midnight :: "external \<Rightarrow> real \<Rightarrow> tm" where
  "next_midnight ext t =
     (let reference = LocalTime ext (to_time_t t)
      in reference\<lparr>tm_mday := tm_mday reference + 1, tm_hour := 0, tm_min := 0, tm_sec := 0\<rparr>)"

text \<open>
  \<open>ScheduledDowntime::CreateNextDowntime\<close>. Each \<open>GetCheckable()->\<close> dereferences
  the pointer without a null check. After the scan, the segment is the pair returned
  by \<open>FindNextSegment\<close>; the pair \<open>(0, 0)\<close> means none, and that branch only reads the
  clock into a local \<open>tm\<close> before it returns. Otherwise the downtime is added and the
  config owner of the downtime fetched under the new identifier is set. Object locks
  are not modelled: one call runs at a time.
\<close>

definition CreateNextDowntime ::
  "external \<Rightarrow> ScheduledDowntime \<Rightarrow> world \<Rightarrow> (error + unit) \<times> world" where
  "CreateNextDowntime ext sd w =
     (case GetCheckable sd w of
        Inl e \<Rightarrow> (Inl e, w)
      | Inr None \<Rightarrow> (Inl NullPointer, w)
      | Inr (Some c) \<Rightarrow>
          (case CreateNextDowntime_scan (GetName sd) (GetDowntimes c w) w of
             (True, w1) \<Rightarrow> (Inr (), w1)
           | (False, w1) \<Rightarrow>
               (case FindNextSegment ext sd w1 of
                  (Inl e, w2) \<Rightarrow> (Inl e, w2)
                | (Inr segment, w2) \<Rightarrow>
                    if fst segment = 0 \<and> snd segment = 0
                    then (let (t, w3) = GetTime w2;
                              reference = next_midnight ext t
                          in (Inr (), w3))
                    else (case GetCheckable sd w2 of
                            Inl e \<Rightarrow> (Inl e, w2)
                          | Inr None \<Rightarrow> (Inl NullPointer, w2)
                          | Inr (Some c2) \<Rightarrow>
                              (let (i, w3) = AddDowntime c2 (GetAuthor sd) (GetComment sd)
                                     (fst segment) (snd segment) (GetFixed sd) []
                                     (GetDuration sd) (GetName sd) w2
                               in case GetDowntimeByID i w3 of
                                    None \<Rightarrow> (Inl NullPointer, w3)
                                  | Some downtime \<Rightarrow>
                                      (Inr (), SetConfigOwner i (GetName sd) w3))))))"

text \<open>
  \<open>ScheduledDowntime::TimerProc\<close> over the objects that
  \<open>DynamicType::GetObjectsByType\<close> enumerates. The loop body has no handler, so an
  exception leaves the loop.
\<close>

fun TimerProc ::
  "external \<Rightarrow> ScheduledDowntime list \<Rightarrow> world \<Rightarrow> (error + unit) \<times> world" where
  "TimerProc ext [] w = (Inr (), w)"
| "TimerProc ext (sd # sds) w =
     (case CreateNextDowntime ext sd w of
        (Inl e, w1) \<Rightarrow> (Inl e, w1)
      | (Inr u, w1) \<Rightarrow> TimerProc ext sds w1)"

section \<open>ValidateRanges\<close>

text \<open>
  The loop of \<open>ScheduledDowntime::ValidateRanges\<close>. Each \<open>catch\<close> rethrows a
  \<open>ValidationError\<close> for the attribute \<open>ranges\<close>, which ends the function.
  \<open>segments\<close> is the array that \<open>ProcessTimeRanges\<close> appends to.
\<close>

fun ValidateRanges_loop ::
  "external \<Rightarrow> tm \<Rightarrow> (string \<times> string) list \<Rightarrow> Segment list \<Rightarrow> error + unit" where
  "ValidateRanges_loop ext reference [] segments = Inr ()"
| "ValidateRanges_loop ext reference (kv # rest) segments =
     (case ParseTimeRange ext (fst kv) reference of
        Inl what \<Rightarrow>
          Inl (ValidationError [''ranges'']
                 (''Invalid time specification '' @ [CHR 0x27] @ fst kv @ [CHR 0x27] @ '': '' @ what))
      | Inr u \<Rightarrow>
          (case ProcessTimeRanges ext (snd kv) reference of
             Inl what \<Rightarrow>
               Inl (ValidationError [''ranges'']
                      (''Invalid time range definition '' @ [CHR 0x27] @ snd kv @ [CHR 0x27] @ '': '' @ what))
           | Inr new \<Rightarrow> ValidateRanges_loop ext reference rest (segments @ new)))"

definition ValidateRanges ::
  "external \<Rightarrow> (string \<times> string) list option \<Rightarrow> world \<Rightarrow> (error + unit) \<times> world" where
  "ValidateRanges ext val w =
     (case val of
        None \<Rightarrow> (Inr (), w)
      | Some rs \<Rightarrow>
          (let (t, w1) = GetTime w;
               refts = to_time_t t;
               reference = LocalTime ext refts
           in (ValidateRanges_loop ext reference rs [], w1)))"


section \<open>Notions used to state the properties\<close>

text \<open>
  The two clock values that one call of \<open>FindNextSegment\<close> in world \<open>w\<close> works with:
  the reference time handed to the evaluator, and \<open>now\<close>.
\<close>

definition FindNextSegment_reference :: "external \<Rightarrow> world \<Rightarrow> tm" where
  "FindNextSegment_reference ext w = LocalTime ext (to_time_t (clock w (reads w)))"

definition FindNextSegment_now :: "world \<Rightarrow> real" where
  "FindNextSegment_now w = clock w (Suc (reads w))"

text \<open>No rule makes the evaluator throw.\<close>

definition no_throw :: "external \<Rightarrow> tm \<Rightarrow> (string \<times> string) list \<Rightarrow> bool" where
  "no_throw ext reference rs =
     list_all (\<lambda>kv. \<not> isl (LegacyTimePeriod_FindNextSegment ext (fst kv) (snd kv) reference)) rs"

text \<open>
  The candidate segments in the words of the specification: the segments the rules
  produce, in rule order, without those that begin before \<open>now\<close>.
\<close>

definition candidates :: "external \<Rightarrow> tm \<Rightarrow> real \<Rightarrow> (string \<times> string) list \<Rightarrow> Segment list" where
  "candidates ext reference now rs =
     filter (\<lambda>s. now \<le> seg_begin s)
       (concat (map (\<lambda>kv. case LegacyTimePeriod_FindNextSegment ext (fst kv) (snd kv) reference of
                             Inr (Some s) \<Rightarrow> [s] | _ \<Rightarrow> []) rs))"

text \<open>One step of the selection, as a function on the candidates.\<close>

definition keep_best :: "(Segment \<times> real) option \<Rightarrow> Segment \<Rightarrow> (Segment \<times> real) option" where
  "keep_best best s =
     (case best of
        None \<Rightarrow> Some (s, seg_begin s)
      | Some (b, bb) \<Rightarrow> if seg_begin s < bb then Some (s, seg_begin s) else best)"


text \<open>
  The downtime that the specification expects \<open>CreateNextDowntime\<close> to leave in the
  store for a segment: times from the segment, the descriptive fields and the two
  ownership fields from the schedule.
\<close>

definition scheduled_window :: "ScheduledDowntime \<Rightarrow> nat \<Rightarrow> real \<times> real \<Rightarrow> Downtime" where
  "scheduled_window sd i segment =
     \<lparr>uid = i, author = GetAuthor sd, comment = GetComment sd, startTime = fst segment,
      endTime = snd segment, fixed = GetFixed sd, triggeredBy = [], duration = GetDuration sd,
      scheduledBy = GetName sd, configOwner = GetName sd\<rparr>"

text \<open>
  The reference time of one call of \<open>ValidateRanges\<close> in world \<open>w\<close>, an entry that
  fails to parse against it (key or value), and the errors that a validation result
  reports: the one exception that was thrown, if any.
\<close>

definition ValidateRanges_reference :: "external \<Rightarrow> world \<Rightarrow> tm" where
  "ValidateRanges_reference ext w = LocalTime ext (to_time_t (clock w (reads w)))"

definition malformed :: "external \<Rightarrow> tm \<Rightarrow> string \<times> string \<Rightarrow> bool" where
  "malformed ext reference kv =
     (isl (ParseTimeRange ext (fst kv) reference) \<or> isl (ProcessTimeRanges ext (snd kv) reference))"

definition reported_errors :: "error + unit \<Rightarrow> error list" where
  "reported_errors r = (case r of Inl e \<Rightarrow> [e] | Inr u \<Rightarrow> [])"

section \<open>A concrete instance\<close>

text \<open>
  An evaluator given by a table, a clock standing at 1000 and two hosts without
  downtimes. The properties below are instantiated on it.
\<close>

definition example_LocalTime :: "int \<Rightarrow> tm" where
  "example_LocalTime t =
     \<lparr>tm_sec = t mod 60, tm_min = t div 60 mod 60, tm_hour = t div 3600 mod 24, tm_mday = 1,
      tm_mon = 0, tm_year = 70, tm_wday = 4, tm_yday = 0, tm_isdst = 0\<rparr>"

definition example_table :: "(string \<times> (string + Segment option)) list" where
  "example_table =
     [(''hourly'', Inr (Some \<lparr>seg_begin = 4600, seg_end = 5000\<rparr>)),
      (''two'', Inr (Some \<lparr>seg_begin = 8200, seg_end = 9000\<rparr>)),
      (''half'', Inr (Some \<lparr>seg_begin = 2800, seg_end = 3000\<rparr>)),
      (''tie'', Inr (Some \<lparr>seg_begin = 2800, seg_end = 3500\<rparr>)),
      (''past'', Inr (Some \<lparr>seg_begin = 500, seg_end = 900\<rparr>)),
      (''now'', Inr (Some \<lparr>seg_begin = 1000, seg_end = 1500\<rparr>)),
      (''never'', Inr None),
      (''bad'', Inl ''Invalid day: bad'')]"

definition example_ext :: external where
  "example_ext =
     \<lparr>LocalTime = example_LocalTime,
      LegacyTimePeriod_FindNextSegment =
        (\<lambda>k v reference. case map_of example_table k of None \<Rightarrow> Inr None | Some r \<Rightarrow> r),
      ParseTimeRange =
        (\<lambda>k reference. if k \<in> {''bad'', ''worse''} then Inl (''Invalid day: '' @ k) else Inr ()),
      ProcessTimeRanges =
        (\<lambda>v reference. if v = ''25:00-26:00'' then Inl ''Invalid hour: 25'' else Inr [])\<rparr>"

definition example_world :: world where
  "example_world =
     \<lparr>clock = (\<lambda>n. 1000), reads = 0, checkables = [((''host1'', []), []), ((''host2'', []), [])]\<rparr>"

definition example_schedule :: "string \<Rightarrow> (string \<times> string) list \<Rightarrow> ScheduledDowntime" where
  "example_schedule host rs =
     \<lparr>GetName = host @ ''!maint'', GetHostName = host, GetServiceName = [],
      GetAuthor = ''admin'', GetComment = ''weekly'', GetFixed = True, GetDuration = 0,
      GetRanges = Some rs\<rparr>"

definition example_rules :: "(string \<times> string) list" where
  "example_rules =
     [(''hourly'', ''00:00-08:00''), (''two'', ''00:00-08:00''), (''half'', ''00:00-08:00''),
      (''tie'', ''00:00-08:00''), (''past'', ''00:00-08:00'')]"

definition example_rules_now :: "(string \<times> string) list" where
  "example_rules_now =
     [(''past'', ''00:00-08:00''), (''hourly'', ''00:00-08:00''), (''now'', ''00:00-08:00'')]"

definition example_rules_none :: "(string \<times> string) list" where
  "example_rules_none = [(''never'', ''00:00-08:00''), (''past'', ''00:00-08:00'')]"

definition example_rules_throw :: "(string \<times> string) list" where
  "example_rules_throw = [(''bad'', ''00:00-08:00'')]"

definition example_rules_malformed :: "(string \<times> string) list" where
  "example_rules_malformed =
     [(''hourly'', ''00:00-08:00''), (''bad'', ''00:00-08:00''), (''worse'', ''25:00-26:00'')]"

definition example_window :: "nat \<Rightarrow> string \<Rightarrow> real \<Rightarrow> real \<Rightarrow> string \<Rightarrow> Downtime" where
  "example_window i host b e owner =
     \<lparr>uid = i, author = ''admin'', comment = ''weekly'', startTime = b, endTime = e,
      fixed = True, triggeredBy = [], duration = 0, scheduledBy = host @ ''!maint'',
      configOwner = owner\<rparr>"

definition example_world_pending :: world where
  "example_world_pending =
     \<lparr>clock = (\<lambda>n. 1000), reads = 0,
      checkables = [((''host1'', []), [example_window 7 ''host1'' 5000 6000 ''host1!maint'']),
                    ((''host2'', []), [])]\<rparr>"

section \<open>Properties of FindNextSegment\<close>

text \<open>
  The log statements of the source have no effect on the state and are left out.
\<close>

lemmas ex_defs = example_LocalTime_def example_table_def example_ext_def example_world_def
  example_schedule_def FindNextSegment_reference_def FindNextSegment_now_def no_throw_def
  candidates_def to_time_t_def example_rules_def

lemma FindNextSegment_world: "snd (FindNextSegment ext sd w) = w\<lparr>reads := Suc (Suc (reads w))\<rparr>"
  by (simp add: FindNextSegment_def GetTime_def Let_def split: option.splits sum.splits prod.splits)

lemma FindNextSegment_result:
  "GetRanges sd = Some rs \<Longrightarrow>
   fst (FindNextSegment ext sd w) =
     (case FindNextSegment_loop ext (FindNextSegment_reference ext w) (FindNextSegment_now w) rs None of
        Inl e \<Rightarrow> Inl e
      | Inr None \<Rightarrow> Inr (0, 0)
      | Inr (Some (s, b)) \<Rightarrow> Inr (seg_begin s, seg_end s))"
  by (simp add: FindNextSegment_def GetTime_def Let_def FindNextSegment_reference_def
      FindNextSegment_now_def split: option.splits sum.splits prod.splits)

lemma FindNextSegment_fst_cong:
  "GetRanges sd = GetRanges sd' \<Longrightarrow> clock w (reads w) = clock w' (reads w') \<Longrightarrow>
   clock w (Suc (reads w)) = clock w' (Suc (reads w')) \<Longrightarrow>
   fst (FindNextSegment ext sd w) = fst (FindNextSegment ext sd' w')"
  by (simp add: FindNextSegment_def GetTime_def Let_def split: option.splits sum.splits prod.splits)

lemma loop_candidates:
  "no_throw ext reference rs \<Longrightarrow>
   FindNextSegment_loop ext reference now rs best
     = Inr (foldl keep_best best (candidates ext reference now rs))"
proof (induction rs arbitrary: best)
  case Nil
  then show ?case by (simp add: candidates_def)
next
  case (Cons kv rs)
  from Cons.prems have nt: "no_throw ext reference rs"
    and ok: "\<not> isl (LegacyTimePeriod_FindNextSegment ext (fst kv) (snd kv) reference)"
    by (simp_all add: no_throw_def)
  from ok obtain r where r: "LegacyTimePeriod_FindNextSegment ext (fst kv) (snd kv) reference = Inr r"
    by (cases "LegacyTimePeriod_FindNextSegment ext (fst kv) (snd kv) reference") auto
  have cand: "candidates ext reference now (kv # rs) =
      (case r of None \<Rightarrow> [] | Some s \<Rightarrow> if now \<le> seg_begin s then [s] else [])
        @ candidates ext reference now rs"
    using r by (simp add: candidates_def split: option.splits)
  show ?case
    using r Cons.IH[OF nt] cand
    by (auto simp: Let_def keep_best_def split: option.splits)
qed

lemma keep_best_first_minimal:
  "cs \<noteq> [] \<Longrightarrow>
   \<exists>s pre post. foldl keep_best None cs = Some (s, seg_begin s) \<and> cs = pre @ s # post \<and>
      (\<forall>c\<in>set pre. seg_begin s < seg_begin c) \<and> (\<forall>c\<in>set post. seg_begin s \<le> seg_begin c)"
proof (induction cs rule: rev_induct)
  case Nil
  then show ?case by simp
next
  case (snoc x xs)
  show ?case
  proof (cases "xs = []")
    case True
    then have "foldl keep_best None (xs @ [x]) = Some (x, seg_begin x)"
      by (simp add: keep_best_def)
    with True show ?thesis
      by (intro exI[of _ x] exI[of _ "[]"]) simp
  next
    case False
    with snoc.IH obtain s pre post where
      f: "foldl keep_best None xs = Some (s, seg_begin s)" and xs: "xs = pre @ s # post"
      and lt: "\<forall>c\<in>set pre. seg_begin s < seg_begin c"
      and le: "\<forall>c\<in>set post. seg_begin s \<le> seg_begin c"
      by blast
    show ?thesis
    proof (cases "seg_begin x < seg_begin s")
      case True
      have "foldl keep_best None (xs @ [x]) = Some (x, seg_begin x)"
        using f True by (simp add: keep_best_def)
      moreover have "\<forall>c\<in>set xs. seg_begin x < seg_begin c"
        using xs lt le True by auto
      ultimately show ?thesis
        by (intro exI[of _ x] exI[of _ xs] exI[of _ "[]"]) simp
    next
      case False
      have "foldl keep_best None (xs @ [x]) = Some (s, seg_begin s)"
        using f False by (simp add: keep_best_def)
      moreover have "xs @ [x] = pre @ s # (post @ [x])"
        using xs by simp
      moreover have "\<forall>c\<in>set (post @ [x]). seg_begin s \<le> seg_begin c"
        using le False by auto
      ultimately show ?thesis
        using lt by blast
    qed
  qed
qed

lemma loop_Some_sound:
  "FindNextSegment_loop ext reference now rs best = Inr (Some (s, b)) \<Longrightarrow>
   best = Some (s, b) \<or>
   (now \<le> seg_begin s \<and> b = seg_begin s \<and>
    (\<exists>kv\<in>set rs. LegacyTimePeriod_FindNextSegment ext (fst kv) (snd kv) reference = Inr (Some s)))"
proof (induction rs arbitrary: best)
  case Nil
  then show ?case by simp
next
  case (Cons kv rs)
  show ?case
  proof (cases "LegacyTimePeriod_FindNextSegment ext (fst kv) (snd kv) reference")
    case (Inl what)
    with Cons.prems show ?thesis by simp
  next
    case (Inr r)
    show ?thesis
    proof (cases r)
      case None
      with Inr Cons.prems have "FindNextSegment_loop ext reference now rs best = Inr (Some (s, b))"
        by simp
      from Cons.IH[OF this] show ?thesis by auto
    next
      case (Some c)
      consider (skip) "FindNextSegment_loop ext reference now rs best = Inr (Some (s, b))"
        | (take) "now \<le> seg_begin c"
            "FindNextSegment_loop ext reference now rs (Some (c, seg_begin c)) = Inr (Some (s, b))"
        using Cons.prems Inr Some
        by (auto simp: Let_def split: if_splits option.splits prod.splits)
      then show ?thesis
      proof cases
        case skip
        from Cons.IH[OF this] show ?thesis by auto
      next
        case take
        from Cons.IH[OF take(2)] show ?thesis
          using take(1) Inr Some by auto
      qed
    qed
  qed
qed

lemma loop_None_candidates:
  "FindNextSegment_loop ext reference now rs None = Inr (Some (s, b)) \<Longrightarrow>
   now \<le> seg_begin s \<and> b = seg_begin s \<and>
   (\<exists>kv\<in>set rs. LegacyTimePeriod_FindNextSegment ext (fst kv) (snd kv) reference = Inr (Some s))"
  using loop_Some_sound[of ext reference now rs None s b] by simp

lemma mem_candidates:
  "kv \<in> set rs \<Longrightarrow>
   LegacyTimePeriod_FindNextSegment ext (fst kv) (snd kv) reference = Inr (Some c) \<Longrightarrow>
   now \<le> seg_begin c \<Longrightarrow> c \<in> set (candidates ext reference now rs)"
  by (force simp: candidates_def)

lemma candidates_not_past: "c \<in> set (candidates ext reference now rs) \<Longrightarrow> now \<le> seg_begin c"
  by (simp add: candidates_def)

lemma FindNextSegment_pair_cases:
  assumes "fst (FindNextSegment ext sd w) = Inr p"
  shows "\<exists>rs. GetRanges sd = Some rs \<and>
     ((FindNextSegment_loop ext (FindNextSegment_reference ext w) (FindNextSegment_now w) rs None
         = Inr None \<and> p = (0, 0)) \<or>
      (\<exists>s. FindNextSegment_loop ext (FindNextSegment_reference ext w) (FindNextSegment_now w) rs None
         = Inr (Some (s, seg_begin s)) \<and> FindNextSegment_now w \<le> seg_begin s \<and>
         p = (seg_begin s, seg_end s)))"
proof (cases "GetRanges sd")
  case None
  with assms show ?thesis
    by (simp add: FindNextSegment_def GetTime_def Let_def)
next
  case (Some rs)
  let ?r = "FindNextSegment_loop ext (FindNextSegment_reference ext w) (FindNextSegment_now w) rs None"
  from FindNextSegment_result[OF Some, of ext w] assms
  have r: "(case ?r of Inl e \<Rightarrow> Inl e | Inr None \<Rightarrow> Inr (0, 0)
              | Inr (Some (s, b)) \<Rightarrow> Inr (seg_begin s, seg_end s)) = Inr p"
    by simp
  show ?thesis
  proof (cases ?r)
    case (Inl e)
    with r show ?thesis by simp
  next
    case (Inr best)
    show ?thesis
    proof (cases best)
      case None
      with Inr r Some show ?thesis by auto
    next
      case (Some sb)
      obtain s b where sb: "sb = (s, b)" by (cases sb)
      from loop_None_candidates[of ext _ _ rs s b] Inr Some sb
      have "FindNextSegment_now w \<le> seg_begin s" "b = seg_begin s" by auto
      with Inr Some sb r \<open>GetRanges sd = Some rs\<close> show ?thesis by auto
    qed
  qed
qed

text \<open>
  C2. When the rules produce at least one candidate segment with \<open>begin \<ge> now\<close> (and
  none makes the evaluator throw), \<open>FindNextSegment\<close> returns the begin and end of the
  candidate with the smallest begin; among candidates with that begin it is the one of
  the rule visited first: every candidate before it begins strictly later, every
  candidate after it begins no earlier. An exception of the evaluator is not caught
  by \<open>FindNextSegment\<close> and would replace the result.
\<close>

theorem FindNextSegment_soonest_first:
  assumes "GetRanges sd = Some rs"
    and "no_throw ext (FindNextSegment_reference ext w) rs"
    and "candidates ext (FindNextSegment_reference ext w) (FindNextSegment_now w) rs \<noteq> []"
  shows "\<exists>s pre post.
     candidates ext (FindNextSegment_reference ext w) (FindNextSegment_now w) rs = pre @ s # post \<and>
     (\<forall>c\<in>set pre. seg_begin s < seg_begin c) \<and>
     (\<forall>c\<in>set post. seg_begin s \<le> seg_begin c) \<and>
     fst (FindNextSegment ext sd w) = Inr (seg_begin s, seg_end s)"
proof -
  let ?cs = "candidates ext (FindNextSegment_reference ext w) (FindNextSegment_now w) rs"
  from keep_best_first_minimal[OF assms(3)] obtain s pre post where
    f: "foldl keep_best None ?cs = Some (s, seg_begin s)" and cs: "?cs = pre @ s # post"
    and lt: "\<forall>c\<in>set pre. seg_begin s < seg_begin c"
    and le: "\<forall>c\<in>set post. seg_begin s \<le> seg_begin c"
    by blast
  have "FindNextSegment_loop ext (FindNextSegment_reference ext w) (FindNextSegment_now w) rs None
      = Inr (Some (s, seg_begin s))"
    using loop_candidates[OF assms(2)] f by simp
  then have "fst (FindNextSegment ext sd w) = Inr (seg_begin s, seg_end s)"
    using FindNextSegment_result[OF assms(1)] by simp
  with cs lt le show ?thesis by blast
qed

theorem FindNextSegment_soonest_first_witness:
  "GetRanges (example_schedule ''host1'' example_rules) = Some example_rules \<and>
   no_throw example_ext (FindNextSegment_reference example_ext example_world) example_rules \<and>
   candidates example_ext (FindNextSegment_reference example_ext example_world)
     (FindNextSegment_now example_world) example_rules
     = [\<lparr>seg_begin = 4600, seg_end = 5000\<rparr>, \<lparr>seg_begin = 8200, seg_end = 9000\<rparr>,
        \<lparr>seg_begin = 2800, seg_end = 3000\<rparr>, \<lparr>seg_begin = 2800, seg_end = 3500\<rparr>] \<and>
   (\<exists>s pre post.
      candidates example_ext (FindNextSegment_reference example_ext example_world)
        (FindNextSegment_now example_world) example_rules = pre @ s # post \<and>
      (\<forall>c\<in>set pre. seg_begin s < seg_begin c) \<and>
      (\<forall>c\<in>set post. seg_begin s \<le> seg_begin c) \<and>
      fst (FindNextSegment example_ext (example_schedule ''host1'' example_rules) example_world)
        = Inr (seg_begin s, seg_end s)) \<and>
   fst (FindNextSegment example_ext (example_schedule ''host1'' example_rules) example_world)
     = Inr (2800, 3000)"
proof -
  have h1: "GetRanges (example_schedule ''host1'' example_rules) = Some example_rules"
    by (simp add: example_schedule_def)
  have h2: "no_throw example_ext (FindNextSegment_reference example_ext example_world) example_rules"
    by (simp add: ex_defs)
  have c: "candidates example_ext (FindNextSegment_reference example_ext example_world)
     (FindNextSegment_now example_world) example_rules
     = [\<lparr>seg_begin = 4600, seg_end = 5000\<rparr>, \<lparr>seg_begin = 8200, seg_end = 9000\<rparr>,
        \<lparr>seg_begin = 2800, seg_end = 3000\<rparr>, \<lparr>seg_begin = 2800, seg_end = 3500\<rparr>]"
    by (simp add: ex_defs)
  have h3: "candidates example_ext (FindNextSegment_reference example_ext example_world)
     (FindNextSegment_now example_world) example_rules \<noteq> []"
    unfolding c by simp
  have v: "fst (FindNextSegment example_ext (example_schedule ''host1'' example_rules) example_world)
      = Inr (2800, 3000)"
    by (simp add: ex_defs FindNextSegment_def GetTime_def)
  from FindNextSegment_soonest_first[OF h1 h2 h3] h1 h2 c v show ?thesis by blast
qed

text \<open>
  C5. A candidate that begins strictly before \<open>now\<close> is never the selected segment,
  whatever the other candidates are, and the pair that \<open>FindNextSegment\<close> returns
  is the pair \<open>(0, 0)\<close> or begins at \<open>now\<close> or later. A candidate that begins exactly
  at \<open>now\<close> is eligible: when no rule throws, a segment beginning at \<open>now\<close> is
  selected and returned.
\<close>

theorem FindNextSegment_rejects_past:
  assumes "GetRanges sd = Some rs"
    and "kv \<in> set rs"
    and "LegacyTimePeriod_FindNextSegment ext (fst kv) (snd kv) (FindNextSegment_reference ext w)
           = Inr (Some c)"
  shows "(seg_begin c < FindNextSegment_now w \<longrightarrow>
            (\<forall>b. FindNextSegment_loop ext (FindNextSegment_reference ext w)
                   (FindNextSegment_now w) rs None \<noteq> Inr (Some (c, b)))) \<and>
         (\<forall>p. fst (FindNextSegment ext sd w) = Inr p \<longrightarrow>
              p = (0, 0) \<or> FindNextSegment_now w \<le> fst p) \<and>
         (seg_begin c = FindNextSegment_now w \<and> no_throw ext (FindNextSegment_reference ext w) rs \<longrightarrow>
            (\<exists>s. FindNextSegment_loop ext (FindNextSegment_reference ext w)
                   (FindNextSegment_now w) rs None = Inr (Some (s, FindNextSegment_now w)) \<and>
                 seg_begin s = FindNextSegment_now w \<and>
                 fst (FindNextSegment ext sd w) = Inr (FindNextSegment_now w, seg_end s)))"
proof (intro conjI impI allI)
  fix b
  assume "seg_begin c < FindNextSegment_now w"
  then show "FindNextSegment_loop ext (FindNextSegment_reference ext w)
       (FindNextSegment_now w) rs None \<noteq> Inr (Some (c, b))"
    using loop_None_candidates[of ext _ _ rs c b] by fastforce
next
  fix p
  assume "fst (FindNextSegment ext sd w) = Inr p"
  from FindNextSegment_pair_cases[OF this]
  show "p = (0, 0) \<or> FindNextSegment_now w \<le> fst p" by auto
next
  let ?ref = "FindNextSegment_reference ext w" and ?now = "FindNextSegment_now w"
  assume a: "seg_begin c = ?now \<and> no_throw ext ?ref rs"
  then have c: "c \<in> set (candidates ext ?ref ?now rs)"
    using mem_candidates[OF assms(2,3), of ?now] by simp
  then have "candidates ext ?ref ?now rs \<noteq> []" by auto
  from keep_best_first_minimal[OF this] obtain s pre post where
    f: "foldl keep_best None (candidates ext ?ref ?now rs) = Some (s, seg_begin s)"
    and cs: "candidates ext ?ref ?now rs = pre @ s # post"
    and lt: "\<forall>c\<in>set pre. seg_begin s < seg_begin c"
    and le: "\<forall>c\<in>set post. seg_begin s \<le> seg_begin c"
    by blast
  have "s \<in> set (candidates ext ?ref ?now rs)" using cs by simp
  then have ge: "?now \<le> seg_begin s" by (rule candidates_not_past)
  have "seg_begin s \<le> seg_begin c"
    using c cs lt le by (auto simp: less_imp_le)
  with ge a have eq: "seg_begin s = ?now" by simp
  have l: "FindNextSegment_loop ext ?ref ?now rs None = Inr (Some (s, ?now))"
    using loop_candidates[of ext ?ref rs ?now None] a f eq by simp
  then have "fst (FindNextSegment ext sd w) = Inr (?now, seg_end s)"
    using FindNextSegment_result[OF assms(1), of ext w] eq by simp
  with l eq show "\<exists>s. FindNextSegment_loop ext ?ref ?now rs None = Inr (Some (s, ?now)) \<and>
      seg_begin s = ?now \<and> fst (FindNextSegment ext sd w) = Inr (?now, seg_end s)"
    by blast
qed

theorem FindNextSegment_rejects_past_witness:
  "GetRanges (example_schedule ''host1'' example_rules_now) = Some example_rules_now \<and>
   (''past'', ''00:00-08:00'') \<in> set example_rules_now \<and>
   (''now'', ''00:00-08:00'') \<in> set example_rules_now \<and>
   seg_begin \<lparr>seg_begin = 500, seg_end = 900\<rparr> < FindNextSegment_now example_world \<and>
   seg_begin \<lparr>seg_begin = 1000, seg_end = 1500\<rparr> = FindNextSegment_now example_world \<and>
   FindNextSegment_loop example_ext (FindNextSegment_reference example_ext example_world)
     (FindNextSegment_now example_world) example_rules_now None
     \<noteq> Inr (Some (\<lparr>seg_begin = 500, seg_end = 900\<rparr>, 500)) \<and>
   (\<exists>s. FindNextSegment_loop example_ext (FindNextSegment_reference example_ext example_world)
          (FindNextSegment_now example_world) example_rules_now None
          = Inr (Some (s, FindNextSegment_now example_world)) \<and>
        seg_begin s = FindNextSegment_now example_world \<and>
        fst (FindNextSegment example_ext (example_schedule ''host1'' example_rules_now) example_world)
          = Inr (FindNextSegment_now example_world, seg_end s)) \<and>
   fst (FindNextSegment example_ext (example_schedule ''host1'' example_rules_now) example_world)
     = Inr (1000, 1500)"
proof -
  let ?sd = "example_schedule ''host1'' example_rules_now"
  let ?ref = "FindNextSegment_reference example_ext example_world"
  have h1: "GetRanges ?sd = Some example_rules_now"
    by (simp add: example_schedule_def)
  have m1: "(''past'', ''00:00-08:00'') \<in> set example_rules_now"
    and m2: "(''now'', ''00:00-08:00'') \<in> set example_rules_now"
    by (simp_all add: example_rules_now_def)
  have e1: "LegacyTimePeriod_FindNextSegment example_ext (fst (''past'', ''00:00-08:00''))
      (snd (''past'', ''00:00-08:00'')) ?ref = Inr (Some \<lparr>seg_begin = 500, seg_end = 900\<rparr>)"
    and e2: "LegacyTimePeriod_FindNextSegment example_ext (fst (''now'', ''00:00-08:00''))
      (snd (''now'', ''00:00-08:00'')) ?ref = Inr (Some \<lparr>seg_begin = 1000, seg_end = 1500\<rparr>)"
    by (simp_all add: ex_defs)
  have lt: "seg_begin \<lparr>seg_begin = 500, seg_end = 900\<rparr> < FindNextSegment_now example_world"
    and eq: "seg_begin \<lparr>seg_begin = 1000, seg_end = 1500\<rparr> = FindNextSegment_now example_world"
    and nt: "no_throw example_ext ?ref example_rules_now"
    by (simp_all add: ex_defs example_rules_now_def)
  have v: "fst (FindNextSegment example_ext ?sd example_world) = Inr (1000, 1500)"
    by (simp add: ex_defs example_rules_now_def FindNextSegment_def GetTime_def)
  from FindNextSegment_rejects_past[OF h1 m1 e1] lt
  have a: "FindNextSegment_loop example_ext ?ref (FindNextSegment_now example_world)
      example_rules_now None \<noteq> Inr (Some (\<lparr>seg_begin = 500, seg_end = 900\<rparr>, 500))"
    by blast
  from FindNextSegment_rejects_past[OF h1 m2 e2] eq nt
  have b: "\<exists>s. FindNextSegment_loop example_ext ?ref (FindNextSegment_now example_world)
          example_rules_now None = Inr (Some (s, FindNextSegment_now example_world)) \<and>
        seg_begin s = FindNextSegment_now example_world \<and>
        fst (FindNextSegment example_ext ?sd example_world)
          = Inr (FindNextSegment_now example_world, seg_end s)"
    by blast
  from h1 m1 m2 lt eq a b v show ?thesis by blast
qed

text \<open>
  C10. At a clock value \<open>now > 0\<close>, the pair returned by \<open>FindNextSegment\<close> is
  \<open>(0, 0)\<close> or begins at \<open>now\<close> or later, and it passes the test
  \<open>first == 0 && second == 0\<close> of \<open>CreateNextDowntime\<close> exactly when the loop ended
  without a best segment: a segment that was found is never taken for none.
\<close>

theorem FindNextSegment_sentinel:
  assumes "0 < FindNextSegment_now w"
    and "fst (FindNextSegment ext sd w) = Inr p"
  shows "(p = (0, 0) \<or> FindNextSegment_now w \<le> fst p) \<and>
         ((fst p = 0 \<and> snd p = 0) =
          (\<exists>rs. GetRanges sd = Some rs \<and>
             FindNextSegment_loop ext (FindNextSegment_reference ext w)
               (FindNextSegment_now w) rs None = Inr None))"
  using FindNextSegment_pair_cases[OF assms(2)] assms(1) by auto

theorem FindNextSegment_sentinel_witness:
  "0 < FindNextSegment_now example_world \<and>
   fst (FindNextSegment example_ext (example_schedule ''host1'' example_rules) example_world)
     = Inr (2800, 3000) \<and>
   FindNextSegment_now example_world \<le> fst (2800 :: real, 3000 :: real) \<and>
   \<not> (\<exists>rs. GetRanges (example_schedule ''host1'' example_rules) = Some rs \<and>
          FindNextSegment_loop example_ext (FindNextSegment_reference example_ext example_world)
            (FindNextSegment_now example_world) rs None = Inr None)"
proof -
  have h1: "0 < FindNextSegment_now example_world"
    by (simp add: ex_defs)
  have h2: "fst (FindNextSegment example_ext (example_schedule ''host1'' example_rules) example_world)
     = Inr (2800, 3000)"
    by (simp add: ex_defs FindNextSegment_def GetTime_def)
  from FindNextSegment_sentinel[OF h1 h2] h1 h2 show ?thesis by simp
qed

text \<open>
  C9. \<open>FindNextSegment\<close> changes nothing in the world but the count of clock reads:
  the downtimes of every target are as before (the schedule is an argument and is not
  written). Its result depends only on the ranges and on the two clock values it
  reads: two calls with the same ranges and the same clock values return the same
  result, whatever the other attributes of the schedule and the downtimes in the
  store are.
\<close>

theorem FindNextSegment_pure:
  "snd (FindNextSegment ext sd w) = w\<lparr>reads := Suc (Suc (reads w))\<rparr> \<and>
   (GetRanges sd = GetRanges sd' \<and> clock w (reads w) = clock w' (reads w') \<and>
    clock w (Suc (reads w)) = clock w' (Suc (reads w')) \<longrightarrow>
    fst (FindNextSegment ext sd w) = fst (FindNextSegment ext sd' w'))"
  by (simp add: FindNextSegment_def GetTime_def Let_def split: option.splits sum.splits prod.splits)

theorem FindNextSegment_pure_witness:
  "GetRanges (example_schedule ''host1'' example_rules)
     = GetRanges (example_schedule ''host2'' example_rules) \<and>
   clock example_world (reads example_world)
     = clock example_world_pending (reads example_world_pending) \<and>
   clock example_world (Suc (reads example_world))
     = clock example_world_pending (Suc (reads example_world_pending)) \<and>
   checkables example_world \<noteq> checkables example_world_pending \<and>
   snd (FindNextSegment example_ext (example_schedule ''host1'' example_rules) example_world)
     = example_world\<lparr>reads := Suc (Suc (reads example_world))\<rparr> \<and>
   fst (FindNextSegment example_ext (example_schedule ''host1'' example_rules) example_world)
     = fst (FindNextSegment example_ext (example_schedule ''host2'' example_rules)
         example_world_pending)"
proof -
  have h: "GetRanges (example_schedule ''host1'' example_rules)
       = GetRanges (example_schedule ''host2'' example_rules) \<and>
     clock example_world (reads example_world)
       = clock example_world_pending (reads example_world_pending) \<and>
     clock example_world (Suc (reads example_world))
       = clock example_world_pending (Suc (reads example_world_pending))"
    by (simp add: example_schedule_def example_world_def example_world_pending_def)
  have d: "checkables example_world \<noteq> checkables example_world_pending"
    by (simp add: example_world_def example_world_pending_def)
  from FindNextSegment_pure[of example_ext "example_schedule ''host1'' example_rules" example_world
      "example_schedule ''host2'' example_rules" example_world_pending] h d
  show ?thesis by blast
qed

section \<open>Properties of CreateNextDowntime\<close>

lemma GetTime_simps [simp]:
  "fst (GetTime w) = clock w (reads w)"
  "checkables (snd (GetTime w)) = checkables w"
  "clock (snd (GetTime w)) = clock w"
  "reads (snd (GetTime w)) = Suc (reads w)"
  by (simp_all add: GetTime_def)

lemma scan_frame:
  "checkables (snd (CreateNextDowntime_scan name ds w)) = checkables w \<and>
   clock (snd (CreateNextDowntime_scan name ds w)) = clock w"
  by (induction ds arbitrary: w) (simp_all add: GetTime_def)

lemma scan_reads_only:
  "snd (CreateNextDowntime_scan name ds w)
     = w\<lparr>reads := reads (snd (CreateNextDowntime_scan name ds w))\<rparr>"
proof (induction ds arbitrary: w)
  case Nil
  then show ?case by simp
next
  case (Cons d ds)
  let ?w1 = "w\<lparr>reads := Suc (reads w)\<rparr>"
  from Cons[of ?w1] have "snd (CreateNextDowntime_scan name ds ?w1)
      = w\<lparr>reads := reads (snd (CreateNextDowntime_scan name ds ?w1))\<rparr>"
    by simp
  with Cons[of w] show ?case by (simp add: GetTime_def)
qed

lemma scan_found:
  "d \<in> set ds \<Longrightarrow> scheduledBy d = name \<Longrightarrow> \<forall>n. clock w n \<le> startTime d \<Longrightarrow>
   fst (CreateNextDowntime_scan name ds w)"
proof (induction ds arbitrary: w)
  case Nil
  then show ?case by simp
next
  case (Cons x ds)
  let ?w1 = "w\<lparr>reads := Suc (reads w)\<rparr>"
  show ?case
  proof (cases "d = x")
    case True
    with Cons.prems have "\<not> startTime x < clock w (reads w)"
      by (simp add: not_less)
    with True Cons.prems show ?thesis by (simp add: GetTime_def)
  next
    case False
    with Cons.prems have d: "d \<in> set ds" by simp
    have "fst (CreateNextDowntime_scan name ds w)"
      using Cons.IH[OF d Cons.prems(2,3)] .
    moreover have "fst (CreateNextDowntime_scan name ds ?w1)"
      using Cons.IH[OF d Cons.prems(2), of ?w1] Cons.prems(3) by simp
    ultimately show ?thesis by (simp add: GetTime_def)
  qed
qed

lemma scan_const_clock:
  "\<forall>n. clock w n = now \<Longrightarrow>
   fst (CreateNextDowntime_scan name ds w)
     = list_ex (\<lambda>d. scheduledBy d = name \<and> \<not> startTime d < now) ds"
  by (induction ds arbitrary: w) (auto simp: GetTime_def)

lemma GetCheckable_keys:
  "map fst (checkables w') = map fst (checkables w) \<Longrightarrow> GetCheckable sd w' = GetCheckable sd w"
  by (simp add: GetCheckable_def Host_GetByName_def GetServiceByShortName_def)

lemma GetCheckable_mem:
  "GetCheckable sd w = Inr (Some c) \<Longrightarrow> c \<in> set (map fst (checkables w))"
  by (auto simp: GetCheckable_def Host_GetByName_def GetServiceByShortName_def Let_def
      split: if_splits option.splits)

lemma GetDowntimes_cong:
  "checkables w' = checkables w \<Longrightarrow> GetDowntimes c w' = GetDowntimes c w"
  by (simp add: GetDowntimes_def)

lemma map_of_append_at:
  "map_of (map (\<lambda>(k, ds). if k = c then (k, ds @ [d]) else (k, ds)) al) k'
     = (if k' = c then map_option (\<lambda>ds. ds @ [d]) (map_of al c) else map_of al k')"
  by (induction al) auto

lemma map_of_map_values:
  "map_of (map (\<lambda>(k, ds). (k, f ds)) al) k' = map_option f (map_of al k')"
  by (induction al) auto

lemma foldr_max_ge: "x \<in> set xs \<Longrightarrow> x \<le> foldr max xs (0::nat)"
  by (induction xs) (auto simp: max_def)

lemma uid_fresh: "d \<in> set (all_downtimes w) \<Longrightarrow> uid d < NewUniqueID w"
  using foldr_max_ge[of "uid d" "map uid (all_downtimes w)"] by (simp add: NewUniqueID_def)

lemma GetDowntimes_subset:
  assumes "d \<in> set (GetDowntimes c w)"
  shows "d \<in> set (all_downtimes w)"
proof (cases "map_of (checkables w) c")
  case None
  with assms show ?thesis by (simp add: GetDowntimes_def)
next
  case (Some ds)
  then have "(c, ds) \<in> set (checkables w)" by (rule map_of_SomeD)
  with assms Some show ?thesis
    by (force simp: GetDowntimes_def all_downtimes_def)
qed

lemma mem_keys_map_of: "c \<in> set (map fst al) \<Longrightarrow> \<exists>ds. map_of al c = Some ds"
  by (induction al) auto

lemma AddDowntime_keys:
  "map fst (checkables (snd (AddDowntime c au co st en fi tr du sb w))) = map fst (checkables w)"
  by (auto simp: AddDowntime_def Let_def)

lemma AddDowntime_frame:
  "clock (snd (AddDowntime c au co st en fi tr du sb w)) = clock w"
  by (simp add: AddDowntime_def Let_def)

lemma AddDowntime_store:
  assumes "c \<in> set (map fst (checkables w))"
  shows "GetDowntimes c' (snd (AddDowntime c au co st en fi tr du sb w)) =
     (if c' = c
      then GetDowntimes c w @
           [\<lparr>uid = NewUniqueID w, author = au, comment = co, startTime = st, endTime = en,
             fixed = fi, triggeredBy = tr, duration = du, scheduledBy = sb, configOwner = []\<rparr>]
      else GetDowntimes c' w)"
  using mem_keys_map_of[OF assms]
  by (auto simp: AddDowntime_def Let_def GetDowntimes_def map_of_append_at)

lemma AddDowntime_fst: "fst (AddDowntime c au co st en fi tr du sb w) = NewUniqueID w"
  by (simp add: AddDowntime_def Let_def)

lemma GetDowntimeByID_found:
  "d \<in> set (GetDowntimes c w) \<Longrightarrow> uid d = i \<Longrightarrow> GetDowntimeByID i w \<noteq> None"
  using GetDowntimes_subset[of d c w] by (auto simp: GetDowntimeByID_def find_None_iff)

lemma SetConfigOwner_keys:
  "map fst (checkables (SetConfigOwner i owner w)) = map fst (checkables w)"
  by (auto simp: SetConfigOwner_def)

lemma SetConfigOwner_frame: "clock (SetConfigOwner i owner w) = clock w"
  by (simp add: SetConfigOwner_def)

lemma SetConfigOwner_store:
  "GetDowntimes c (SetConfigOwner i owner w)
     = map (\<lambda>d. if uid d = i then d\<lparr>configOwner := owner\<rparr> else d) (GetDowntimes c w)"
  by (simp add: SetConfigOwner_def GetDowntimes_def map_of_map_values split: option.splits)

lemma NewUniqueID_cong: "checkables w' = checkables w \<Longrightarrow> NewUniqueID w' = NewUniqueID w"
  by (simp add: NewUniqueID_def all_downtimes_def)

lemma add_then_own:
  assumes c: "c \<in> set (map fst (checkables w))"
    and add: "AddDowntime c (GetAuthor sd) (GetComment sd) (fst segment) (snd segment)
                (GetFixed sd) [] (GetDuration sd) (GetName sd) w = (i, w3)"
  shows "i = NewUniqueID w"
    and "GetDowntimeByID i w3 \<noteq> None"
    and "GetDowntimes c' (SetConfigOwner i (GetName sd) w3) =
           (if c' = c then GetDowntimes c w @ [scheduled_window sd (NewUniqueID w) segment]
            else GetDowntimes c' w)"
    and "clock (SetConfigOwner i (GetName sd) w3) = clock w"
    and "map fst (checkables (SetConfigOwner i (GetName sd) w3)) = map fst (checkables w)"
    and "clock w3 = clock w"
    and "map fst (checkables w3) = map fst (checkables w)"
proof -
  let ?d = "\<lparr>uid = NewUniqueID w, author = GetAuthor sd, comment = GetComment sd,
             startTime = fst segment, endTime = snd segment, fixed = GetFixed sd,
             triggeredBy = [], duration = GetDuration sd, scheduledBy = GetName sd,
             configOwner = []\<rparr>"
  let ?upd = "\<lambda>d. if uid d = i then d\<lparr>configOwner := GetName sd\<rparr> else d"
  from add show i: "i = NewUniqueID w"
    using AddDowntime_fst[of c _ _ _ _ _ _ _ _ w] by (metis fst_conv)
  from add have w3: "w3 = snd (AddDowntime c (GetAuthor sd) (GetComment sd) (fst segment)
      (snd segment) (GetFixed sd) [] (GetDuration sd) (GetName sd) w)"
    by simp
  have store: "\<And>c'. GetDowntimes c' w3 = (if c' = c then GetDowntimes c w @ [?d] else GetDowntimes c' w)"
    unfolding w3 using AddDowntime_store[OF c] by simp
  have "?d \<in> set (GetDowntimes c w3)" using store by simp
  then show "GetDowntimeByID i w3 \<noteq> None"
    using i by (intro GetDowntimeByID_found[of ?d c]) simp_all
  have old: "map ?upd (GetDowntimes k w) = GetDowntimes k w" for k
  proof (rule map_idI)
    fix d assume "d \<in> set (GetDowntimes k w)"
    then have "uid d < NewUniqueID w" by (intro uid_fresh GetDowntimes_subset)
    with i show "?upd d = d" by simp
  qed
  have "?upd ?d = scheduled_window sd (NewUniqueID w) segment"
    using i by (simp add: scheduled_window_def)
  then show "GetDowntimes c' (SetConfigOwner i (GetName sd) w3) =
           (if c' = c then GetDowntimes c w @ [scheduled_window sd (NewUniqueID w) segment]
            else GetDowntimes c' w)"
    unfolding SetConfigOwner_store store using old by simp
  show "clock w3 = clock w" unfolding w3 by (rule AddDowntime_frame)
  then show "clock (SetConfigOwner i (GetName sd) w3) = clock w"
    by (simp add: SetConfigOwner_frame)
  show "map fst (checkables w3) = map fst (checkables w)" unfolding w3 by (rule AddDowntime_keys)
  then show "map fst (checkables (SetConfigOwner i (GetName sd) w3)) = map fst (checkables w)"
    by (simp add: SetConfigOwner_keys)
qed

lemma CreateNextDowntime_create_branch:
  "GetCheckable sd w = Inr (Some c) \<Longrightarrow>
   CreateNextDowntime_scan (GetName sd) (GetDowntimes c w) w = (False, w1) \<Longrightarrow>
   FindNextSegment ext sd w1 = (Inr segment, w2) \<Longrightarrow>
   \<not> (fst segment = 0 \<and> snd segment = 0) \<Longrightarrow>
   GetCheckable sd w2 = Inr (Some c2) \<Longrightarrow>
   AddDowntime c2 (GetAuthor sd) (GetComment sd) (fst segment) (snd segment) (GetFixed sd) []
     (GetDuration sd) (GetName sd) w2 = (i, w3) \<Longrightarrow>
   GetDowntimeByID i w3 = Some dt \<Longrightarrow>
   CreateNextDowntime ext sd w = (Inr (), SetConfigOwner i (GetName sd) w3)"
  unfolding CreateNextDowntime_def by auto

lemma CreateNextDowntime_none_branch:
  "GetCheckable sd w = Inr (Some c) \<Longrightarrow>
   CreateNextDowntime_scan (GetName sd) (GetDowntimes c w) w = (False, w1) \<Longrightarrow>
   FindNextSegment ext sd w1 = (Inr segment, w2) \<Longrightarrow>
   fst segment = 0 \<and> snd segment = 0 \<Longrightarrow>
   CreateNextDowntime ext sd w = (Inr (), snd (GetTime w2))"
  unfolding CreateNextDowntime_def by (auto simp: Let_def split: prod.splits)

lemma CreateNextDowntime_creates:
  assumes gc: "GetCheckable sd w = Inr (Some c)"
    and scan: "CreateNextDowntime_scan (GetName sd) (GetDowntimes c w) w = (False, w1)"
    and fs: "fst (FindNextSegment ext sd w1) = Inr segment"
    and nz: "\<not> (fst segment = 0 \<and> snd segment = 0)"
  shows "fst (CreateNextDowntime ext sd w) = Inr ()"
    and "GetDowntimes k (snd (CreateNextDowntime ext sd w)) =
           (if k = c then GetDowntimes c w @ [scheduled_window sd (NewUniqueID w) segment]
            else GetDowntimes k w)"
    and "clock (snd (CreateNextDowntime ext sd w)) = clock w"
    and "map fst (checkables (snd (CreateNextDowntime ext sd w))) = map fst (checkables w)"
proof -
  have w1: "checkables w1 = checkables w" "clock w1 = clock w"
    using scan_frame[of "GetName sd" "GetDowntimes c w" w] scan by simp_all
  obtain w2 where fns: "FindNextSegment ext sd w1 = (Inr segment, w2)"
    using fs by (cases "FindNextSegment ext sd w1") simp
  have w2: "checkables w2 = checkables w" "clock w2 = clock w"
    using FindNextSegment_world[of ext sd w1] fns w1 by simp_all
  have gc2: "GetCheckable sd w2 = Inr (Some c)"
    using GetCheckable_keys[of w2 w sd] w2 gc by simp
  have c2: "c \<in> set (map fst (checkables w2))"
    using GetCheckable_mem[OF gc2] .
  obtain i w3 where add: "AddDowntime c (GetAuthor sd) (GetComment sd) (fst segment)
      (snd segment) (GetFixed sd) [] (GetDuration sd) (GetName sd) w2 = (i, w3)"
    by (cases "AddDowntime c (GetAuthor sd) (GetComment sd) (fst segment)
      (snd segment) (GetFixed sd) [] (GetDuration sd) (GetName sd) w2")
  note own = add_then_own[OF c2 add]
  from own(2) obtain dt where dt: "GetDowntimeByID i w3 = Some dt" by auto
  have res: "CreateNextDowntime ext sd w = (Inr (), SetConfigOwner i (GetName sd) w3)"
    using CreateNextDowntime_create_branch[OF gc scan fns nz gc2 add dt] .
  have st: "GetDowntimes k w2 = GetDowntimes k w" for k
    by (rule GetDowntimes_cong) (rule w2)
  have nid: "NewUniqueID w2 = NewUniqueID w"
    by (rule NewUniqueID_cong) (rule w2)
  show "fst (CreateNextDowntime ext sd w) = Inr ()" by (simp add: res)
  show "GetDowntimes k (snd (CreateNextDowntime ext sd w)) =
           (if k = c then GetDowntimes c w @ [scheduled_window sd (NewUniqueID w) segment]
            else GetDowntimes k w)"
    using own(3)[of k] st nid by (simp add: res)
  show "clock (snd (CreateNextDowntime ext sd w)) = clock w"
    using own(4) w2 by (simp add: res)
  show "map fst (checkables (snd (CreateNextDowntime ext sd w))) = map fst (checkables w)"
    using own(5) w2 by (simp add: res)
qed

lemma CreateNextDowntime_cases:
  assumes "CreateNextDowntime ext sd w = (r, w')"
  shows "clock w' = clock w \<and> map fst (checkables w') = map fst (checkables w) \<and>
    (checkables w' = checkables w \<or>
     (\<exists>c w1 segment.
        GetCheckable sd w = Inr (Some c) \<and>
        CreateNextDowntime_scan (GetName sd) (GetDowntimes c w) w = (False, w1) \<and>
        fst (FindNextSegment ext sd w1) = Inr segment \<and>
        \<not> (fst segment = 0 \<and> snd segment = 0) \<and>
        r = Inr () \<and>
        GetDowntimes c w' = GetDowntimes c w @ [scheduled_window sd (NewUniqueID w) segment] \<and>
        (\<forall>c'. c' \<noteq> c \<longrightarrow> GetDowntimes c' w' = GetDowntimes c' w)))"
proof (cases "GetCheckable sd w")
  case (Inl e)
  with assms show ?thesis by (simp add: CreateNextDowntime_def)
next
  case (Inr co)
  show ?thesis
  proof (cases co)
    case None
    with Inr assms show ?thesis by (simp add: CreateNextDowntime_def)
  next
    case (Some c)
    note gc = Inr[unfolded Some]
    obtain f w1 where scan: "CreateNextDowntime_scan (GetName sd) (GetDowntimes c w) w = (f, w1)"
      by (cases "CreateNextDowntime_scan (GetName sd) (GetDowntimes c w) w")
    have w1: "checkables w1 = checkables w" "clock w1 = clock w"
      using scan_frame[of "GetName sd" "GetDowntimes c w" w] scan by simp_all
    show ?thesis
    proof (cases f)
      case True
      with assms gc scan w1 show ?thesis by (simp add: CreateNextDowntime_def)
    next
      case False
      then have fF: "f = False" by simp
      note scanF = scan[unfolded fF]
      obtain r2 w2 where fns: "FindNextSegment ext sd w1 = (r2, w2)"
        by (cases "FindNextSegment ext sd w1")
      have w2: "checkables w2 = checkables w" "clock w2 = clock w"
        using FindNextSegment_world[of ext sd w1] fns w1 by simp_all
      show ?thesis
      proof (cases r2)
        case (Inl e)
        with assms gc scanF fns w2 show ?thesis by (simp add: CreateNextDowntime_def)
      next
        case (Inr segment)
        show ?thesis
        proof (cases "fst segment = 0 \<and> snd segment = 0")
          case True
          with CreateNextDowntime_none_branch[OF gc scanF fns[unfolded Inr]] assms
          have "w' = snd (GetTime w2)" by simp
          with w2 show ?thesis by simp
        next
          case nz: False
          have fs: "fst (FindNextSegment ext sd w1) = Inr segment"
            using fns Inr by simp
          note cr = CreateNextDowntime_creates[OF gc scanF fs nz]
          have w': "w' = snd (CreateNextDowntime ext sd w)" "r = fst (CreateNextDowntime ext sd w)"
            using assms by simp_all
          have "\<exists>c w1 segment.
              GetCheckable sd w = Inr (Some c) \<and>
              CreateNextDowntime_scan (GetName sd) (GetDowntimes c w) w = (False, w1) \<and>
              fst (FindNextSegment ext sd w1) = Inr segment \<and>
              \<not> (fst segment = 0 \<and> snd segment = 0) \<and>
              r = Inr () \<and>
              GetDowntimes c w' = GetDowntimes c w @ [scheduled_window sd (NewUniqueID w) segment] \<and>
              (\<forall>c'. c' \<noteq> c \<longrightarrow> GetDowntimes c' w' = GetDowntimes c' w)"
            using gc scanF fs nz cr(1) cr(2) unfolding w' by (intro exI[of _ c] exI[of _ w1] exI[of _ segment]) simp
          moreover have "clock w' = clock w" "map fst (checkables w') = map fst (checkables w)"
            using cr(3,4) unfolding w' by simp_all
          ultimately show ?thesis by blast
        qed
      qed
    qed
  qed
qed

lemma CreateNextDowntime_pending:
  assumes gc: "GetCheckable sd w = Inr (Some c)"
    and d: "d \<in> set (GetDowntimes c w)" "scheduledBy d = GetName sd"
    and t: "\<forall>n. clock w n \<le> startTime d"
  shows "CreateNextDowntime ext sd w
           = (Inr (), w\<lparr>reads := reads (snd (CreateNextDowntime ext sd w))\<rparr>)"
proof -
  let ?s = "CreateNextDowntime_scan (GetName sd) (GetDowntimes c w) w"
  have "fst ?s" using scan_found[OF d t] .
  then obtain w1 where s: "?s = (True, w1)" by (cases ?s) simp
  then have res: "CreateNextDowntime ext sd w = (Inr (), w1)"
    using gc by (simp add: CreateNextDowntime_def)
  have "w1 = w\<lparr>reads := reads w1\<rparr>"
    using scan_reads_only[of "GetName sd" "GetDowntimes c w" w] s by simp
  with res show ?thesis by simp
qed

lemma CreateNextDowntime_none:
  assumes gc: "GetCheckable sd w = Inr (Some c)"
    and rs: "GetRanges sd = Some rs"
    and w1: "w1 = snd (CreateNextDowntime_scan (GetName sd) (GetDowntimes c w) w)"
    and nt: "no_throw ext (FindNextSegment_reference ext w1) rs"
    and em: "candidates ext (FindNextSegment_reference ext w1) (FindNextSegment_now w1) rs = []"
  shows "\<exists>n. CreateNextDowntime ext sd w = (Inr (), w\<lparr>reads := n\<rparr>)"
proof -
  let ?s = "CreateNextDowntime_scan (GetName sd) (GetDowntimes c w) w"
  obtain f where s: "?s = (f, w1)" using w1 by (cases ?s) simp
  have r1: "w1 = w\<lparr>reads := reads w1\<rparr>"
    using scan_reads_only[of "GetName sd" "GetDowntimes c w" w] s by simp
  show ?thesis
  proof (cases f)
    case True
    with s gc have "CreateNextDowntime ext sd w = (Inr (), w1)"
      by (simp add: CreateNextDowntime_def)
    with r1 show ?thesis by metis
  next
    case False
    then have s': "?s = (False, w1)" using s by simp
    have "FindNextSegment_loop ext (FindNextSegment_reference ext w1) (FindNextSegment_now w1) rs None
        = Inr None"
      using loop_candidates[OF nt, of "FindNextSegment_now w1" None] em by simp
    then have "fst (FindNextSegment ext sd w1) = Inr (0, 0)"
      using FindNextSegment_result[OF rs, of ext w1] by simp
    then have fns: "FindNextSegment ext sd w1 = (Inr (0, 0), w1\<lparr>reads := Suc (Suc (reads w1))\<rparr>)"
      using FindNextSegment_world[of ext sd w1] by (cases "FindNextSegment ext sd w1") simp
    have "CreateNextDowntime ext sd w
        = (Inr (), snd (GetTime (w1\<lparr>reads := Suc (Suc (reads w1))\<rparr>)))"
      by (rule CreateNextDowntime_none_branch[OF gc s' fns]) simp
    also have "snd (GetTime (w1\<lparr>reads := Suc (Suc (reads w1))\<rparr>))
        = w\<lparr>reads := Suc (Suc (Suc (reads w1)))\<rparr>"
      by (subst (2) r1) (simp add: GetTime_def)
    finally show ?thesis by blast
  qed
qed

lemma second_call_keeps_store:
  assumes const: "\<forall>n. clock w n = now"
    and first: "CreateNextDowntime ext sd w = (r1, w1)"
    and second: "CreateNextDowntime ext sd w1 = (r2, w2)"
  shows "checkables w2 = checkables w1"
proof (rule ccontr)
  assume neq: "checkables w2 \<noteq> checkables w1"
  from CreateNextDowntime_cases[OF first]
  have cl1: "clock w1 = clock w" and k1: "map fst (checkables w1) = map fst (checkables w)"
    by simp_all
  from CreateNextDowntime_cases[OF second] neq obtain c v1 segment where
    gc1: "GetCheckable sd w1 = Inr (Some c)"
    and sc1: "CreateNextDowntime_scan (GetName sd) (GetDowntimes c w1) w1 = (False, v1)"
    and fs1: "fst (FindNextSegment ext sd v1) = Inr segment"
    and nz: "\<not> (fst segment = 0 \<and> snd segment = 0)"
    by blast
  have gc: "GetCheckable sd w = Inr (Some c)"
    using GetCheckable_keys[OF k1, of sd] gc1 by simp
  have const1: "\<forall>n. clock w1 n = now" using const cl1 by simp
  have nopend1: "\<not> list_ex (\<lambda>d. scheduledBy d = GetName sd \<and> \<not> startTime d < now) (GetDowntimes c w1)"
    using scan_const_clock[OF const1, of "GetName sd" "GetDowntimes c w1"] sc1 by simp
  have clv: "clock v1 = clock w1"
    using scan_frame[of "GetName sd" "GetDowntimes c w1" w1] sc1 by simp
  from FindNextSegment_pair_cases[OF fs1] nz
  have "FindNextSegment_now v1 \<le> fst segment" by auto
  then have ge: "now \<le> fst segment"
    using clv const1 by (simp add: FindNextSegment_now_def)
  show False
  proof (cases "checkables w1 = checkables w")
    case True
    then have dt: "GetDowntimes c w1 = GetDowntimes c w" by (rule GetDowntimes_cong)
    let ?s = "CreateNextDowntime_scan (GetName sd) (GetDowntimes c w) w"
    have "\<not> fst ?s"
      using scan_const_clock[OF const, of "GetName sd" "GetDowntimes c w"] nopend1 dt by simp
    then obtain u1 where sc: "?s = (False, u1)" by (cases ?s) simp
    have clu: "clock u1 = clock w"
      using scan_frame[of "GetName sd" "GetDowntimes c w" w] sc by simp
    have "fst (FindNextSegment ext sd u1) = fst (FindNextSegment ext sd v1)"
      using FindNextSegment_fst_cong[of sd sd u1 v1 ext] clu clv const const1 by simp
    then have fs: "fst (FindNextSegment ext sd u1) = Inr segment" using fs1 by simp
    from CreateNextDowntime_creates(2)[OF gc sc fs nz, of c] first
    have "GetDowntimes c w1 \<noteq> GetDowntimes c w" by simp
    with dt show False by simp
  next
    case False
    with CreateNextDowntime_cases[OF first] obtain c0 segment0 u1 where
      gc0: "GetCheckable sd w = Inr (Some c0)"
      and sc0: "CreateNextDowntime_scan (GetName sd) (GetDowntimes c0 w) w = (False, u1)"
      and fs0: "fst (FindNextSegment ext sd u1) = Inr segment0"
      and nz0: "\<not> (fst segment0 = 0 \<and> snd segment0 = 0)"
      and new: "GetDowntimes c0 w1
                  = GetDowntimes c0 w @ [scheduled_window sd (NewUniqueID w) segment0]"
      by blast
    have "c0 = c" using gc gc0 by simp
    have clu: "clock u1 = clock w"
      using scan_frame[of "GetName sd" "GetDowntimes c0 w" w] sc0 by simp
    from FindNextSegment_pair_cases[OF fs0] nz0
    have "FindNextSegment_now u1 \<le> fst segment0" by auto
    then have "now \<le> fst segment0"
      using clu const by (simp add: FindNextSegment_now_def)
    then have "list_ex (\<lambda>d. scheduledBy d = GetName sd \<and> \<not> startTime d < now) (GetDowntimes c w1)"
      using new \<open>c0 = c\<close> by (simp add: scheduled_window_def not_less)
    with nopend1 show False by simp
  qed
qed

text \<open>The calls of \<open>CreateNextDowntime\<close> on the concrete instance, evaluated.\<close>

lemmas cnd_defs = CreateNextDowntime_def GetCheckable_def Host_GetByName_def GetDowntimes_def
  FindNextSegment_def GetTime_def AddDowntime_def NewUniqueID_def all_downtimes_def
  GetDowntimeByID_def SetConfigOwner_def next_midnight_def example_window_def
  example_world_pending_def example_rules_now_def example_rules_none_def example_rules_throw_def

lemma example_first_call:
  "CreateNextDowntime example_ext (example_schedule ''host1'' example_rules) example_world =
     (Inr (), \<lparr>clock = (\<lambda>n. 1000), reads = 2,
               checkables = [((''host1'', []), [example_window 1 ''host1'' 2800 3000 ''host1!maint'']),
                             ((''host2'', []), [])]\<rparr>)"
  by (simp add: cnd_defs ex_defs)

lemma example_pending_call:
  "CreateNextDowntime example_ext (example_schedule ''host1'' example_rules) example_world_pending =
     (Inr (), example_world_pending\<lparr>reads := 1\<rparr>)"
  by (simp add: cnd_defs ex_defs)

lemma example_none_call:
  "CreateNextDowntime example_ext (example_schedule ''host1'' example_rules_none) example_world =
     (Inr (), example_world\<lparr>reads := 3\<rparr>)"
  by (simp add: cnd_defs ex_defs)

lemma example_throw_call:
  "CreateNextDowntime example_ext (example_schedule ''host1'' example_rules_throw) example_world =
     (Inl (StdException ''Invalid day: bad''), example_world\<lparr>reads := 2\<rparr>)"
  by (simp add: cnd_defs ex_defs)

lemma example_host2_call:
  "CreateNextDowntime example_ext (example_schedule ''host2'' example_rules)
     (example_world\<lparr>reads := 2\<rparr>) =
     (Inr (), \<lparr>clock = (\<lambda>n. 1000), reads = 4,
               checkables = [((''host1'', []), []),
                             ((''host2'', []), [example_window 1 ''host2'' 2800 3000 ''host2!maint''])]\<rparr>)"
  by (simp add: cnd_defs ex_defs)

text \<open>
  C1. If the store of the target holds a downtime whose \<open>scheduledBy\<close> is the name of
  the schedule and whose start time is not before the clock (at any reading taken
  during the call), \<open>CreateNextDowntime\<close> returns normally and changes nothing but
  the count of clock reads. Consequently, of two calls in immediate succession (the
  clock stands at \<open>now\<close>, nothing else touches the store) the second leaves the
  store as the first left it, and every target has at most one downtime more after
  both calls than before.
\<close>

theorem CreateNextDowntime_idempotent:
  "(GetCheckable sd w = Inr (Some c) \<and> d \<in> set (GetDowntimes c w) \<and>
    scheduledBy d = GetName sd \<and> (\<forall>n. clock w n \<le> startTime d) \<longrightarrow>
      CreateNextDowntime ext sd w
        = (Inr (), w\<lparr>reads := reads (snd (CreateNextDowntime ext sd w))\<rparr>)) \<and>
   ((\<forall>n. clock w n = now) \<and> CreateNextDowntime ext sd w = (r1, w1) \<and>
    CreateNextDowntime ext sd w1 = (r2, w2) \<longrightarrow>
      checkables w2 = checkables w1 \<and>
      (\<forall>k. length (GetDowntimes k w2) \<le> Suc (length (GetDowntimes k w))))"
proof -
  have first: "CreateNextDowntime ext sd w
        = (Inr (), w\<lparr>reads := reads (snd (CreateNextDowntime ext sd w))\<rparr>)"
    if "GetCheckable sd w = Inr (Some c) \<and> d \<in> set (GetDowntimes c w) \<and>
        scheduledBy d = GetName sd \<and> (\<forall>n. clock w n \<le> startTime d)"
    using that CreateNextDowntime_pending[of sd w c d ext] by blast
  have twice: "checkables w2 = checkables w1 \<and>
      (\<forall>k. length (GetDowntimes k w2) \<le> Suc (length (GetDowntimes k w)))"
    if a: "(\<forall>n. clock w n = now) \<and> CreateNextDowntime ext sd w = (r1, w1) \<and>
        CreateNextDowntime ext sd w1 = (r2, w2)"
  proof -
    have eq: "checkables w2 = checkables w1"
      using a second_call_keeps_store[of w now ext sd r1 w1 r2 w2] by blast
    have "length (GetDowntimes k w2) \<le> Suc (length (GetDowntimes k w))" for k
    proof -
      have "GetDowntimes k w2 = GetDowntimes k w1" using eq by (rule GetDowntimes_cong)
      moreover have "length (GetDowntimes k w1) \<le> Suc (length (GetDowntimes k w))"
      proof (cases "checkables w1 = checkables w")
        case True
        then have "GetDowntimes k w1 = GetDowntimes k w" by (rule GetDowntimes_cong)
        then show ?thesis by simp
      next
        case False
        with CreateNextDowntime_cases[of ext sd w r1 w1] a obtain c0 sw where
          new: "GetDowntimes c0 w1 = GetDowntimes c0 w @ [sw]"
          and old: "\<forall>c'. c' \<noteq> c0 \<longrightarrow> GetDowntimes c' w1 = GetDowntimes c' w"
          by blast
        show ?thesis
        proof (cases "k = c0")
          case True
          with new show ?thesis by simp
        next
          case False
          with old have "GetDowntimes k w1 = GetDowntimes k w" by blast
          then show ?thesis by simp
        qed
      qed
      ultimately show ?thesis by simp
    qed
    with eq show ?thesis by blast
  qed
  from first twice show ?thesis by blast
qed

theorem CreateNextDowntime_idempotent_witness:
  "CreateNextDowntime example_ext (example_schedule ''host1'' example_rules) example_world_pending
     = (Inr (), example_world_pending\<lparr>reads := 1\<rparr>) \<and>
   GetDowntimes (''host1'', [])
     (snd (CreateNextDowntime example_ext (example_schedule ''host1'' example_rules) example_world))
     = [example_window 1 ''host1'' 2800 3000 ''host1!maint''] \<and>
   checkables (snd (CreateNextDowntime example_ext (example_schedule ''host1'' example_rules)
      (snd (CreateNextDowntime example_ext (example_schedule ''host1'' example_rules) example_world))))
     = checkables (snd (CreateNextDowntime example_ext (example_schedule ''host1'' example_rules)
         example_world)) \<and>
   length (GetDowntimes (''host1'', [])
      (snd (CreateNextDowntime example_ext (example_schedule ''host1'' example_rules)
         (snd (CreateNextDowntime example_ext (example_schedule ''host1'' example_rules)
            example_world))))) \<le> Suc (length (GetDowntimes (''host1'', []) example_world))"
proof -
  let ?sd = "example_schedule ''host1'' example_rules"
  let ?d = "example_window 7 ''host1'' 5000 6000 ''host1!maint''"
  let ?w1 = "snd (CreateNextDowntime example_ext ?sd example_world)"
  have p: "GetCheckable ?sd example_world_pending = Inr (Some (''host1'', [])) \<and>
      ?d \<in> set (GetDowntimes (''host1'', []) example_world_pending) \<and>
      scheduledBy ?d = GetName ?sd \<and> (\<forall>n. clock example_world_pending n \<le> startTime ?d)"
    by (simp add: cnd_defs ex_defs)
  have q: "(\<forall>n. clock example_world n = 1000) \<and>
      CreateNextDowntime example_ext ?sd example_world
        = (fst (CreateNextDowntime example_ext ?sd example_world), ?w1) \<and>
      CreateNextDowntime example_ext ?sd ?w1
        = (fst (CreateNextDowntime example_ext ?sd ?w1), snd (CreateNextDowntime example_ext ?sd ?w1))"
    by (simp add: example_world_def)
  have r: "reads (snd (CreateNextDowntime example_ext ?sd example_world_pending)) = 1"
    by (simp add: example_pending_call)
  have s: "GetDowntimes (''host1'', []) ?w1 = [example_window 1 ''host1'' 2800 3000 ''host1!maint'']"
    by (simp add: example_first_call GetDowntimes_def)
  from CreateNextDowntime_idempotent[where sd = ?sd and w = example_world_pending and c = "(''host1'', [])" and d = ?d
      and ext = example_ext] p r
  have a: "CreateNextDowntime example_ext ?sd example_world_pending
     = (Inr (), example_world_pending\<lparr>reads := 1\<rparr>)"
    by simp
  from CreateNextDowntime_idempotent[where sd = ?sd and w = example_world and ext = example_ext and now = 1000
      and ?r1.0 = "fst (CreateNextDowntime example_ext ?sd example_world)" and ?w1.0 = ?w1
      and ?r2.0 = "fst (CreateNextDowntime example_ext ?sd ?w1)"
      and ?w2.0 = "snd (CreateNextDowntime example_ext ?sd ?w1)"] q
  have b: "checkables (snd (CreateNextDowntime example_ext ?sd ?w1)) = checkables ?w1 \<and>
      (\<forall>k. length (GetDowntimes k (snd (CreateNextDowntime example_ext ?sd ?w1)))
            \<le> Suc (length (GetDowntimes k example_world)))"
    by blast
  from a b s show ?thesis by blast
qed

text \<open>
  C6. When the target resolves and, at the clock values that \<open>FindNextSegment\<close>
  reads after the scan of the store, no rule throws and no rule produces a segment
  that begins at \<open>now\<close> or later, \<open>CreateNextDowntime\<close> returns normally, creates no
  downtime and leaves the world as it was except for the count of clock reads; the
  reference time computed in this branch is not part of the result.
\<close>

theorem CreateNextDowntime_no_segment_noop:
  assumes "GetCheckable sd w = Inr (Some c)"
    and "GetRanges sd = Some rs"
    and "w1 = snd (CreateNextDowntime_scan (GetName sd) (GetDowntimes c w) w)"
    and "no_throw ext (FindNextSegment_reference ext w1) rs"
    and "candidates ext (FindNextSegment_reference ext w1) (FindNextSegment_now w1) rs = []"
  shows "fst (CreateNextDowntime ext sd w) = Inr () \<and>
         (\<exists>n. snd (CreateNextDowntime ext sd w) = w\<lparr>reads := n\<rparr>) \<and>
         checkables (snd (CreateNextDowntime ext sd w)) = checkables w"
proof -
  from CreateNextDowntime_none[OF assms] obtain n where
    "CreateNextDowntime ext sd w = (Inr (), w\<lparr>reads := n\<rparr>)" by blast
  then have "fst (CreateNextDowntime ext sd w) = Inr ()"
    and "snd (CreateNextDowntime ext sd w) = w\<lparr>reads := n\<rparr>"
    and "checkables (snd (CreateNextDowntime ext sd w)) = checkables w"
    by simp_all
  then show ?thesis by blast
qed

theorem CreateNextDowntime_no_segment_noop_witness:
  "GetCheckable (example_schedule ''host1'' example_rules_none) example_world
     = Inr (Some (''host1'', [])) \<and>
   GetRanges (example_schedule ''host1'' example_rules_none) = Some example_rules_none \<and>
   example_world = snd (CreateNextDowntime_scan (GetName (example_schedule ''host1'' example_rules_none))
      (GetDowntimes (''host1'', []) example_world) example_world) \<and>
   no_throw example_ext (FindNextSegment_reference example_ext example_world) example_rules_none \<and>
   candidates example_ext (FindNextSegment_reference example_ext example_world)
     (FindNextSegment_now example_world) example_rules_none = [] \<and>
   fst (CreateNextDowntime example_ext (example_schedule ''host1'' example_rules_none) example_world)
     = Inr () \<and>
   checkables (snd (CreateNextDowntime example_ext (example_schedule ''host1'' example_rules_none)
      example_world)) = checkables example_world"
proof -
  let ?sd = "example_schedule ''host1'' example_rules_none"
  have h1: "GetCheckable ?sd example_world = Inr (Some (''host1'', []))"
    by (simp add: cnd_defs ex_defs)
  have h2: "GetRanges ?sd = Some example_rules_none"
    by (simp add: example_schedule_def)
  have h3: "example_world = snd (CreateNextDowntime_scan (GetName ?sd)
      (GetDowntimes (''host1'', []) example_world) example_world)"
    by (simp add: cnd_defs ex_defs)
  have h4: "no_throw example_ext (FindNextSegment_reference example_ext example_world)
      example_rules_none"
    by (simp add: ex_defs example_rules_none_def)
  have h5: "candidates example_ext (FindNextSegment_reference example_ext example_world)
     (FindNextSegment_now example_world) example_rules_none = []"
    by (simp add: ex_defs example_rules_none_def)
  from CreateNextDowntime_no_segment_noop[OF h1 h2 h3 h4 h5] h1 h2 h3 h4 h5 show ?thesis by blast
qed

text \<open>
  C4. Whenever a call of \<open>CreateNextDowntime\<close> changes the downtimes of a target,
  the call returned normally, the target is the one of the schedule, and its store is
  the old one followed by exactly one new downtime: start and end time are the pair
  returned by \<open>FindNextSegment\<close>, author, comment, fixed and duration are those of
  the schedule, and both \<open>scheduledBy\<close> and \<open>configOwner\<close> are the name of the
  schedule. No other target is changed.
\<close>

theorem CreateNextDowntime_window_fields:
  assumes "CreateNextDowntime ext sd w = (r, w')"
    and "GetDowntimes c' w' \<noteq> GetDowntimes c' w"
  shows "\<exists>c w1 segment.
     GetCheckable sd w = Inr (Some c) \<and>
     w1 = snd (CreateNextDowntime_scan (GetName sd) (GetDowntimes c w) w) \<and>
     fst (FindNextSegment ext sd w1) = Inr segment \<and>
     r = Inr () \<and> c' = c \<and>
     GetDowntimes c w' = GetDowntimes c w @
       [\<lparr>uid = NewUniqueID w, author = GetAuthor sd, comment = GetComment sd,
         startTime = fst segment, endTime = snd segment, fixed = GetFixed sd,
         triggeredBy = [], duration = GetDuration sd, scheduledBy = GetName sd,
         configOwner = GetName sd\<rparr>] \<and>
     (\<forall>k. k \<noteq> c \<longrightarrow> GetDowntimes k w' = GetDowntimes k w)"
proof -
  from assms(2) have "checkables w' \<noteq> checkables w"
    by (auto simp: GetDowntimes_def)
  with CreateNextDowntime_cases[OF assms(1)] obtain c w1 segment where
    h: "GetCheckable sd w = Inr (Some c)"
       "CreateNextDowntime_scan (GetName sd) (GetDowntimes c w) w = (False, w1)"
       "fst (FindNextSegment ext sd w1) = Inr segment"
       "r = Inr ()"
       "GetDowntimes c w' = GetDowntimes c w @ [scheduled_window sd (NewUniqueID w) segment]"
       "\<forall>c'. c' \<noteq> c \<longrightarrow> GetDowntimes c' w' = GetDowntimes c' w"
    by blast
  from h(6) assms(2) have "c' = c" by blast
  with h show ?thesis by (auto simp: scheduled_window_def)
qed

theorem CreateNextDowntime_window_fields_witness:
  "CreateNextDowntime example_ext (example_schedule ''host1'' example_rules) example_world =
     (Inr (), \<lparr>clock = (\<lambda>n. 1000), reads = 2,
               checkables = [((''host1'', []), [example_window 1 ''host1'' 2800 3000 ''host1!maint'']),
                             ((''host2'', []), [])]\<rparr>) \<and>
   GetDowntimes (''host1'', [])
     \<lparr>clock = (\<lambda>n. 1000), reads = 2,
      checkables = [((''host1'', []), [example_window 1 ''host1'' 2800 3000 ''host1!maint'']),
                    ((''host2'', []), [])]\<rparr>
     \<noteq> GetDowntimes (''host1'', []) example_world \<and>
   (\<exists>c w1 segment.
     GetCheckable (example_schedule ''host1'' example_rules) example_world = Inr (Some c) \<and>
     w1 = snd (CreateNextDowntime_scan (GetName (example_schedule ''host1'' example_rules))
                 (GetDowntimes c example_world) example_world) \<and>
     fst (FindNextSegment example_ext (example_schedule ''host1'' example_rules) w1) = Inr segment \<and>
     GetDowntimes c
       \<lparr>clock = (\<lambda>n. 1000), reads = 2,
        checkables = [((''host1'', []), [example_window 1 ''host1'' 2800 3000 ''host1!maint'']),
                      ((''host2'', []), [])]\<rparr>
       = GetDowntimes c example_world @
       [\<lparr>uid = NewUniqueID example_world,
         author = GetAuthor (example_schedule ''host1'' example_rules),
         comment = GetComment (example_schedule ''host1'' example_rules),
         startTime = fst segment, endTime = snd segment,
         fixed = GetFixed (example_schedule ''host1'' example_rules),
         triggeredBy = [], duration = GetDuration (example_schedule ''host1'' example_rules),
         scheduledBy = GetName (example_schedule ''host1'' example_rules),
         configOwner = GetName (example_schedule ''host1'' example_rules)\<rparr>])"
proof -
  let ?w' = "\<lparr>clock = (\<lambda>n. 1000), reads = 2,
      checkables = [((''host1'', []), [example_window 1 ''host1'' 2800 3000 ''host1!maint'']),
                    ((''host2'', []), [])]\<rparr>"
  have h2: "GetDowntimes (''host1'', []) ?w' \<noteq> GetDowntimes (''host1'', []) example_world"
    by (simp add: GetDowntimes_def example_world_def)
  from CreateNextDowntime_window_fields[OF example_first_call h2] example_first_call h2 show ?thesis by blast
qed

section \<open>Properties of TimerProc\<close>

lemma TimerProc_append:
  "TimerProc ext (pre @ post) w =
     (case TimerProc ext pre w of
        (Inl e, w1) \<Rightarrow> (Inl e, w1)
      | (Inr u, w1) \<Rightarrow> TimerProc ext post w1)"
  by (induction pre arbitrary: w) (auto split: prod.splits sum.splits)

text \<open>
  C8 (amended). \<open>TimerProc\<close> reconciles the schedules one after the other in
  enumeration order, each in the world left by the one before. An exception raised
  while reconciling one schedule ends the pass: it is the result of \<open>TimerProc\<close> and
  the schedules after it are not reconciled. When the pass returns normally, every
  schedule has been reconciled and none has raised.
\<close>

theorem TimerProc_stops_at_failure:
  "(TimerProc ext pre w = (Inr (), w1) \<and> CreateNextDowntime ext sd w1 = (Inl e, w2) \<longrightarrow>
      TimerProc ext (pre @ sd # post) w = (Inl e, w2)) \<and>
   (TimerProc ext (pre @ sd # post) w = (Inr (), w') \<longrightarrow>
      (\<exists>v1 v2. TimerProc ext pre w = (Inr (), v1) \<and>
               CreateNextDowntime ext sd v1 = (Inr (), v2) \<and>
               TimerProc ext post v2 = (Inr (), w')))"
  by (auto simp: TimerProc_append split: prod.splits sum.splits)

theorem TimerProc_stops_at_failure_witness:
  "TimerProc example_ext [] example_world = (Inr (), example_world) \<and>
   CreateNextDowntime example_ext (example_schedule ''host1'' example_rules_throw) example_world
     = (Inl (StdException ''Invalid day: bad''), example_world\<lparr>reads := 2\<rparr>) \<and>
   TimerProc example_ext
     ([] @ example_schedule ''host1'' example_rules_throw # [example_schedule ''host2'' example_rules])
     example_world = (Inl (StdException ''Invalid day: bad''), example_world\<lparr>reads := 2\<rparr>) \<and>
   TimerProc example_ext ([] @ example_schedule ''host1'' example_rules_none # []) example_world
     = (Inr (), example_world\<lparr>reads := 3\<rparr>) \<and>
   (\<exists>v1 v2. TimerProc example_ext [] example_world = (Inr (), v1) \<and>
      CreateNextDowntime example_ext (example_schedule ''host1'' example_rules_none) v1 = (Inr (), v2) \<and>
      TimerProc example_ext [] v2 = (Inr (), example_world\<lparr>reads := 3\<rparr>))"
proof -
  have h1: "TimerProc example_ext [] example_world = (Inr (), example_world)"
    by simp
  have h3: "TimerProc example_ext ([] @ example_schedule ''host1'' example_rules_none # [])
      example_world = (Inr (), example_world\<lparr>reads := 3\<rparr>)"
    by (simp add: example_none_call)
  from TimerProc_stops_at_failure[where ext = example_ext and pre = "[]" and w = example_world and ?w1.0 = example_world
      and sd = "example_schedule ''host1'' example_rules_throw"
      and e = "StdException ''Invalid day: bad''" and ?w2.0 = "example_world\<lparr>reads := 2\<rparr>"
      and post = "[example_schedule ''host2'' example_rules]"] h1 example_throw_call
  have a: "TimerProc example_ext
     ([] @ example_schedule ''host1'' example_rules_throw # [example_schedule ''host2'' example_rules])
     example_world = (Inl (StdException ''Invalid day: bad''), example_world\<lparr>reads := 2\<rparr>)"
    by blast
  from TimerProc_stops_at_failure[where ext = example_ext and pre = "[]" and w = example_world
      and sd = "example_schedule ''host1'' example_rules_none" and post = "[]"
      and w' = "example_world\<lparr>reads := 3\<rparr>"] h3
  have b: "\<exists>v1 v2. TimerProc example_ext [] example_world = (Inr (), v1) \<and>
      CreateNextDowntime example_ext (example_schedule ''host1'' example_rules_none) v1 = (Inr (), v2) \<and>
      TimerProc example_ext [] v2 = (Inr (), example_world\<lparr>reads := 3\<rparr>)"
    by blast
  from h1 example_throw_call a h3 b show ?thesis by blast
qed

text \<open>
  The statement of the specification fails on the code: the first schedule raises,
  and the second, which would get a downtime if it were reconciled, is left without
  one.
\<close>

theorem TimerProc_failure_not_isolated_counterexample:
  "fst (CreateNextDowntime example_ext (example_schedule ''host1'' example_rules_throw)
          example_world) = Inl (StdException ''Invalid day: bad'') \<and>
   TimerProc example_ext
     [example_schedule ''host1'' example_rules_throw, example_schedule ''host2'' example_rules]
     example_world = (Inl (StdException ''Invalid day: bad''), example_world\<lparr>reads := 2\<rparr>) \<and>
   GetDowntimes (''host2'', []) (example_world\<lparr>reads := 2\<rparr>) = [] \<and>
   GetDowntimes (''host2'', [])
     (snd (CreateNextDowntime example_ext (example_schedule ''host2'' example_rules)
        (example_world\<lparr>reads := 2\<rparr>)))
     = [example_window 1 ''host2'' 2800 3000 ''host2!maint'']"
  by (simp add: example_throw_call example_host2_call) (simp add: GetDowntimes_def example_world_def)

section \<open>Properties of ValidateRanges\<close>

lemma ValidateRanges_loop_ok:
  "(ValidateRanges_loop ext reference rs segments = Inr ())
     = list_all (\<lambda>kv. \<not> malformed ext reference kv) rs"
  by (induction rs arbitrary: segments) (auto simp: malformed_def split: sum.splits)

lemma ValidateRanges_loop_skip:
  "\<forall>p\<in>set pre. \<not> malformed ext reference p \<Longrightarrow>
   \<exists>segments'. ValidateRanges_loop ext reference (pre @ rest) segments
      = ValidateRanges_loop ext reference rest segments'"
proof (induction pre arbitrary: segments)
  case Nil
  then show ?case by auto
next
  case (Cons p pre)
  from Cons.prems obtain u new where
    "ParseTimeRange ext (fst p) reference = Inr u" "ProcessTimeRanges ext (snd p) reference = Inr new"
    by (cases "ParseTimeRange ext (fst p) reference"; cases "ProcessTimeRanges ext (snd p) reference")
       (auto simp: malformed_def)
  moreover from Cons.prems have "\<forall>p\<in>set pre. \<not> malformed ext reference p" by simp
  from Cons.IH[OF this] obtain s' where
    "ValidateRanges_loop ext reference (pre @ rest) (segments @ new)
       = ValidateRanges_loop ext reference rest s'" by blast
  ultimately show ?case by auto
qed

lemma ValidateRanges_fst:
  "fst (ValidateRanges ext (Some rs) w)
     = ValidateRanges_loop ext (ValidateRanges_reference ext w) rs []"
  by (simp add: ValidateRanges_def ValidateRanges_reference_def GetTime_def Let_def)

lemmas val_defs = ValidateRanges_def ValidateRanges_reference_def malformed_def
  reported_errors_def GetTime_def example_rules_malformed_def

text \<open>
  C3 (amended). When entries of the ranges fail to parse, \<open>ValidateRanges\<close> reports
  exactly one validation error, for the first malformed entry in iteration order: it
  is tagged to the attribute \<open>ranges\<close> and carries the offending key with the
  message of the parser, or, when the key parses, the offending value with the message
  of the parser. Entries after the first malformed one are not examined.
\<close>

theorem ValidateRanges_first_error:
  assumes "\<forall>p\<in>set pre. \<not> malformed ext (ValidateRanges_reference ext w) p"
    and "malformed ext (ValidateRanges_reference ext w) kv"
  shows "length (reported_errors (fst (ValidateRanges ext (Some (pre @ kv # post)) w))) = 1 \<and>
    (\<forall>what. ParseTimeRange ext (fst kv) (ValidateRanges_reference ext w) = Inl what \<longrightarrow>
       fst (ValidateRanges ext (Some (pre @ kv # post)) w) =
         Inl (ValidationError [''ranges'']
               (''Invalid time specification '' @ [CHR 0x27] @ fst kv @ [CHR 0x27] @ '': '' @ what))) \<and>
    (\<forall>u what. ParseTimeRange ext (fst kv) (ValidateRanges_reference ext w) = Inr u \<and>
          ProcessTimeRanges ext (snd kv) (ValidateRanges_reference ext w) = Inl what \<longrightarrow>
       fst (ValidateRanges ext (Some (pre @ kv # post)) w) =
         Inl (ValidationError [''ranges'']
               (''Invalid time range definition '' @ [CHR 0x27] @ snd kv @ [CHR 0x27] @ '': '' @ what)))"
proof -
  let ?ref = "ValidateRanges_reference ext w"
  from ValidateRanges_loop_skip[OF assms(1), of "kv # post" "[]"] obtain s' where
    "ValidateRanges_loop ext ?ref (pre @ kv # post) [] = ValidateRanges_loop ext ?ref (kv # post) s'"
    by blast
  then have r: "fst (ValidateRanges ext (Some (pre @ kv # post)) w)
      = ValidateRanges_loop ext ?ref (kv # post) s'"
    by (simp add: ValidateRanges_fst)
  show ?thesis
    unfolding r using assms(2)
    by (auto simp: malformed_def reported_errors_def split: sum.splits)
qed

theorem ValidateRanges_first_error_witness:
  "\<not> malformed example_ext (ValidateRanges_reference example_ext example_world)
       (''hourly'', ''00:00-08:00'') \<and>
   malformed example_ext (ValidateRanges_reference example_ext example_world)
       (''bad'', ''00:00-08:00'') \<and>
   ParseTimeRange example_ext (fst (''bad'', ''00:00-08:00''))
       (ValidateRanges_reference example_ext example_world) = Inl ''Invalid day: bad'' \<and>
   length (reported_errors (fst (ValidateRanges example_ext
       (Some ([(''hourly'', ''00:00-08:00'')] @ (''bad'', ''00:00-08:00'') #
              [(''worse'', ''25:00-26:00'')])) example_world))) = 1 \<and>
   fst (ValidateRanges example_ext
       (Some ([(''hourly'', ''00:00-08:00'')] @ (''bad'', ''00:00-08:00'') #
              [(''worse'', ''25:00-26:00'')])) example_world) =
     Inl (ValidationError [''ranges'']
           (''Invalid time specification '' @ [CHR 0x27] @ fst (''bad'', ''00:00-08:00'')
              @ [CHR 0x27] @ '': '' @ ''Invalid day: bad''))"
proof -
  let ?ref = "ValidateRanges_reference example_ext example_world"
  have h1: "\<forall>p\<in>set [(''hourly'', ''00:00-08:00'')]. \<not> malformed example_ext ?ref p"
    by (simp add: val_defs ex_defs)
  have h2: "malformed example_ext ?ref (''bad'', ''00:00-08:00'')"
    by (simp add: val_defs ex_defs)
  have h3: "ParseTimeRange example_ext (fst (''bad'', ''00:00-08:00'')) ?ref = Inl ''Invalid day: bad''"
    by (simp add: val_defs ex_defs)
  note t = ValidateRanges_first_error[OF h1 h2, of "[(''worse'', ''25:00-26:00'')]"]
  from t have l: "length (reported_errors (fst (ValidateRanges example_ext
       (Some ([(''hourly'', ''00:00-08:00'')] @ (''bad'', ''00:00-08:00'') #
              [(''worse'', ''25:00-26:00'')])) example_world))) = 1"
    by blast
  from t h3 have m: "fst (ValidateRanges example_ext
       (Some ([(''hourly'', ''00:00-08:00'')] @ (''bad'', ''00:00-08:00'') #
              [(''worse'', ''25:00-26:00'')])) example_world) =
     Inl (ValidationError [''ranges'']
           (''Invalid time specification '' @ [CHR 0x27] @ fst (''bad'', ''00:00-08:00'')
              @ [CHR 0x27] @ '': '' @ ''Invalid day: bad''))"
    by blast
  from h1 have n: "\<not> malformed example_ext ?ref (''hourly'', ''00:00-08:00'')" by simp
  from n h2 h3 l m show ?thesis by blast
qed

text \<open>
  The statement of the specification fails on the code: two entries are malformed,
  one error is reported.
\<close>

theorem ValidateRanges_not_aggregated_counterexample:
  "length (filter (malformed example_ext (ValidateRanges_reference example_ext example_world))
             example_rules_malformed) = 2 \<and>
   reported_errors (fst (ValidateRanges example_ext (Some example_rules_malformed) example_world))
     = [ValidationError [''ranges''] (''Invalid time specification '' @ [CHR 0x27] @ ''bad''
          @ [CHR 0x27] @ '': Invalid day: bad'')]"
  by (simp add: val_defs ex_defs)

text \<open>
  C7 (amended). \<open>ValidateRanges\<close> accepts a ranges attribute exactly when it is
  absent or every entry parses, key and value, against the reference time taken at
  validation; in particular an absent and an empty dictionary are accepted.
\<close>

theorem ValidateRanges_accepts_iff:
  "(fst (ValidateRanges ext val w) = Inr ()) =
     (val = None \<or>
      (\<exists>rs. val = Some rs \<and>
         list_all (\<lambda>kv. \<not> malformed ext (ValidateRanges_reference ext w) kv) rs))"
proof (cases val)
  case None
  then show ?thesis by (simp add: ValidateRanges_def)
next
  case (Some rs)
  then show ?thesis by (simp add: ValidateRanges_fst ValidateRanges_loop_ok)
qed

theorem ValidateRanges_accepts_iff_witness:
  "fst (ValidateRanges example_ext (Some example_rules) example_world) = Inr () \<and>
   list_all (\<lambda>kv. \<not> malformed example_ext (ValidateRanges_reference example_ext example_world) kv)
     example_rules \<and>
   fst (ValidateRanges example_ext (Some example_rules_malformed) example_world) \<noteq> Inr () \<and>
   \<not> list_all (\<lambda>kv. \<not> malformed example_ext (ValidateRanges_reference example_ext example_world) kv)
     example_rules_malformed"
proof -
  have a: "list_all (\<lambda>kv. \<not> malformed example_ext (ValidateRanges_reference example_ext example_world) kv)
     example_rules"
    by (simp add: val_defs ex_defs)
  have b: "\<not> list_all (\<lambda>kv. \<not> malformed example_ext (ValidateRanges_reference example_ext example_world) kv)
     example_rules_malformed"
    by (simp add: val_defs ex_defs)
  from ValidateRanges_accepts_iff[of example_ext "Some example_rules" example_world]
       ValidateRanges_accepts_iff[of example_ext "Some example_rules_malformed" example_world] a b
  show ?thesis by simp
qed

text \<open>
  The statement of the specification fails on the code: an absent and an empty
  ranges dictionary are accepted.
\<close>

theorem ValidateRanges_accepts_empty_counterexample:
  "fst (ValidateRanges example_ext None example_world) = Inr () \<and>
   fst (ValidateRanges example_ext (Some []) example_world) = Inr ()"
  by (simp add: val_defs)

end
